theory Spec2Isabelle
  imports Complex_Main
begin

section \<open>JavaScript values\<close>

text \<open>
  The values the program handles dynamically: results of the XML parser, thrown values,
  the cells of a log row. Numbers are the integer-valued ones the program computes
  (HTTP status, milliseconds, the 0/1 error flag). A string is its sequence of code units,
  kept to the 8-bit range: header values reach the program decoded as Latin-1.
\<close>

datatype jsval =
    JUndefined
  | JNull
  | JBool bool
  | JNum int
  | JStr string
  | JArr "jsval list"
  | JObj "(string \<times> jsval) list"

text \<open>\<^verbatim>\<open>Boolean(v)\<close>, the test behind \<^verbatim>\<open>!v\<close>, \<^verbatim>\<open>a || b\<close> and \<^verbatim>\<open>filter(Boolean)\<close>.\<close>

fun truthy :: "jsval \<Rightarrow> bool" where
  "truthy JUndefined = False"
| "truthy JNull = False"
| "truthy (JBool b) = b"
| "truthy (JNum n) = (n \<noteq> 0)"
| "truthy (JStr s) = (s \<noteq> [])"
| "truthy (JArr xs) = True"
| "truthy (JObj kvs) = True"

text \<open>\<^verbatim>\<open>a || b\<close>\<close>

definition js_or :: "jsval \<Rightarrow> jsval \<Rightarrow> jsval" where
  "js_or a b = (if truthy a then a else b)"

text \<open>
  \<^verbatim>\<open>v.k\<close>: reading a property of \<^verbatim>\<open>null\<close> or \<^verbatim>\<open>undefined\<close> throws a TypeError;
  an object gives the value stored under the key, or \<^verbatim>\<open>undefined\<close>. The keys the program
  reads (\<^verbatim>\<open>sitemapindex\<close>, \<^verbatim>\<open>sitemap\<close>, \<^verbatim>\<open>urlset\<close>, \<^verbatim>\<open>url\<close>, \<^verbatim>\<open>loc\<close>, \<^verbatim>\<open>code\<close>,
  \<^verbatim>\<open>message\<close>, \<^verbatim>\<open>response\<close>, \<^verbatim>\<open>data\<close>, \<^verbatim>\<open>success\<close>) are no built-in property of a
  primitive or an array, so those give \<^verbatim>\<open>undefined\<close>.
\<close>

definition TypeError :: jsval where
  "TypeError = JObj [(''name'', JStr ''TypeError'')]"

definition RangeError :: jsval where
  "RangeError = JObj [(''name'', JStr ''RangeError'')]"

fun get_prop :: "jsval \<Rightarrow> string \<Rightarrow> jsval + jsval" where
  "get_prop JUndefined k = Inl TypeError"
| "get_prop JNull k = Inl TypeError"
| "get_prop (JObj kvs) k = Inr (case map_of kvs k of None \<Rightarrow> JUndefined | Some v \<Rightarrow> v)"
| "get_prop v k = Inr JUndefined"

text \<open>\<^verbatim>\<open>v?.k\<close>\<close>

fun opt_prop :: "jsval \<Rightarrow> string \<Rightarrow> jsval" where
  "opt_prop (JObj kvs) k = (case map_of kvs k of None \<Rightarrow> JUndefined | Some v \<Rightarrow> v)"
| "opt_prop v k = JUndefined"

text \<open>\<^verbatim>\<open>Array.isArray(list) ? list : [list]\<close>\<close>

fun as_array :: "jsval \<Rightarrow> jsval list" where
  "as_array (JArr xs) = xs"
| "as_array v = [v]"

text \<open>\<^verbatim>\<open>xs.map((e) => e.loc)\<close>: the first element without properties throws.\<close>

fun map_loc :: "jsval list \<Rightarrow> jsval + jsval list" where
  "map_loc [] = Inr []"
| "map_loc (e # es) =
     (case get_prop e ''loc'' of
        Inl err \<Rightarrow> Inl err
      | Inr v \<Rightarrow> (case map_loc es of Inl err \<Rightarrow> Inl err | Inr vs \<Rightarrow> Inr (v # vs)))"

section \<open>Strings\<close>

text \<open>
  \<^verbatim>\<open>String.prototype.toLowerCase\<close> on Latin-1 code units: A to Z, and the letters
  U+00C0 to U+00DE without the multiplication sign U+00D7, move up by 32.
\<close>

definition lower_char :: "char \<Rightarrow> char" where
  "lower_char c =
     (let n = (of_char c :: nat)
      in if (65 \<le> n \<and> n \<le> 90) \<or> (192 \<le> n \<and> n \<le> 222 \<and> n \<noteq> 215)
         then char_of (n + 32) else c)"

definition toLowerCase :: "string \<Rightarrow> string" where
  "toLowerCase s = map lower_char s"

text \<open>\<^verbatim>\<open>s.split(c)\<close> for a separator of one character: never an empty array.\<close>

fun split :: "char \<Rightarrow> string \<Rightarrow> string list" where
  "split c [] = [[]]"
| "split c (x # xs) =
     (if x = c then [] # split c xs
      else (case split c xs of [] \<Rightarrow> [[x]] | seg # segs \<Rightarrow> (x # seg) # segs))"

text \<open>\<^verbatim>\<open>s.includes(c)\<close> for a string \<open>c\<close> of one character.\<close>

definition str_includes :: "string \<Rightarrow> char \<Rightarrow> bool" where
  "str_includes s c = (c \<in> set s)"

text \<open>\<^verbatim>\<open>xs[i]\<close> on an array of strings: \<^verbatim>\<open>undefined\<close> out of range.\<close>

definition str_at :: "string list \<Rightarrow> nat \<Rightarrow> jsval" where
  "str_at xs i = (if i < length xs then JStr (xs ! i) else JUndefined)"

text \<open>Decimal digits, as \<^verbatim>\<open>String(n)\<close> and template literals print a natural number.\<close>

definition digit :: "nat \<Rightarrow> char" where
  "digit d = char_of (48 + d)"

fun show_nat :: "nat \<Rightarrow> string" where
  "show_nat n = (if n < 10 then [digit n] else show_nat (n div 10) @ [digit (n mod 10)])"

declare show_nat.simps [simp del]

text \<open>\<^verbatim>\<open>String(n).padStart(w, "0")\<close>\<close>

definition pad :: "nat \<Rightarrow> nat \<Rightarrow> string" where
  "pad w n = replicate (w - length (show_nat n)) (CHR ''0'') @ show_nat n"

section \<open>Dates\<close>

text \<open>
  A \<^verbatim>\<open>Date\<close> is its time value, milliseconds since the epoch. The calendar fields are
  those of the proleptic Gregorian calendar in UTC, computed from the day number.
\<close>

definition msPerDay :: int where
  "msPerDay = 86400000"

record civil =
  c_year :: int
  c_month :: nat
  c_day :: nat

definition civil_from_days :: "int \<Rightarrow> civil" where
  "civil_from_days z0 =
     (let z = z0 + 719468;
          era = z div 146097;
          doe = z - era * 146097;
          yoe = (doe - doe div 1460 + doe div 36524 - doe div 146096) div 365;
          doy = doe - (365 * yoe + yoe div 4 - yoe div 100);
          mp = (5 * doy + 2) div 153;
          d = doy - (153 * mp + 2) div 5 + 1;
          m = (if mp < 10 then mp + 3 else mp - 9);
          y = yoe + era * 400 + (if m \<le> 2 then 1 else 0)
      in \<lparr>c_year = y, c_month = nat m, c_day = nat d\<rparr>)"

definition getUTCFullYear :: "int \<Rightarrow> int" where
  "getUTCFullYear t = c_year (civil_from_days (t div msPerDay))"

definition getUTCMonth :: "int \<Rightarrow> nat" where
  "getUTCMonth t = c_month (civil_from_days (t div msPerDay)) - 1"

definition getUTCDate :: "int \<Rightarrow> nat" where
  "getUTCDate t = c_day (civil_from_days (t div msPerDay))"

definition getUTCHours :: "int \<Rightarrow> nat" where
  "getUTCHours t = nat ((t mod msPerDay) div 3600000)"

definition getUTCMinutes :: "int \<Rightarrow> nat" where
  "getUTCMinutes t = nat ((t mod 3600000) div 60000)"

definition getUTCSeconds :: "int \<Rightarrow> nat" where
  "getUTCSeconds t = nat ((t mod 60000) div 1000)"

definition getUTCMilliseconds :: "int \<Rightarrow> nat" where
  "getUTCMilliseconds t = nat (t mod 1000)"

text \<open>
  \<^verbatim>\<open>String(y)\<close> for the year of the sheet name, and the year of \<^verbatim>\<open>toISOString\<close>: four
  digits from 0 to 9999, a sign and six digits otherwise.
\<close>

definition show_int :: "int \<Rightarrow> string" where
  "show_int i = (if i < 0 then CHR ''-'' # show_nat (nat (- i)) else show_nat (nat i))"

definition iso_year :: "int \<Rightarrow> string" where
  "iso_year y =
     (if 0 \<le> y \<and> y \<le> 9999 then pad 4 (nat y)
      else (if y < 0 then CHR ''-'' else CHR ''+'') # pad 6 (nat \<bar>y\<bar>))"

definition toISOString :: "int \<Rightarrow> string" where
  "toISOString t =
     iso_year (getUTCFullYear t) @ ''-'' @ pad 2 (getUTCMonth t + 1) @ ''-'' @
     pad 2 (getUTCDate t) @ ''T'' @ pad 2 (getUTCHours t) @ '':'' @
     pad 2 (getUTCMinutes t) @ '':'' @ pad 2 (getUTCSeconds t) @ ''.'' @
     pad 3 (getUTCMilliseconds t) @ ''Z''"

definition makeSheetNameForRun :: "int \<Rightarrow> string" where
  "makeSheetNameForRun date =
     (let local = date + 8 * 3600 * 1000
      in show_int (getUTCFullYear local) @ ''-'' @ pad 2 (getUTCMonth local + 1) @ ''-'' @
         pad 2 (getUTCDate local) @ ''_'' @ pad 2 (getUTCHours local) @ ''-'' @
         pad 2 (getUTCMinutes local) @ ''-'' @ pad 2 (getUTCSeconds local) @ ''_WITA'')"

section \<open>Environment and effects\<close>

text \<open>
  Everything the program does to the outside is an event, appended to a trace in the order
  it happens. A sleep records which \<^verbatim>\<open>await sleep(...)\<close> it is; \<open>EPurge\<close> records a call
  of the purge client; a console event records which diagnostic line was written, with the
  values it is about (not the interpolated text).
\<close>

datatype site = Backoff | InterBatch

datatype diag =
    DStarted
  | DFinished
  | DFound string nat
  | DWarmed string jsval
  | DWarmFailed string jsval
  | DPurgeFailed jsval
  | DPurgeError jsval
  | DLoggingError jsval

record axios_cfg =
  cfg_userAgent :: jsval
  cfg_timeout :: nat
  cfg_httpsAgent :: "string option"

datatype event =
    EGet jsval axios_cfg
  | EPostSink string string "jsval list list"
  | EPostCdn string string jsval
  | ESleep site nat
  | EPurge jsval
  | EConsole diag

record response =
  res_status :: int
  res_headers :: "string \<rightharpoonup> string"
  res_data :: jsval

text \<open>
  The environment: the process variables read at start-up, and the outside world as
  functions of the history so far. \<open>net\<close> answers the request that is the last event of the
  history, with a response or with the value axios throws; \<open>Date_now\<close> is the clock in
  milliseconds; \<open>parseStringPromise\<close> is the XML parser (with the options the program
  fixes), failing with the value it rejects with; \<open>HttpsProxyAgent\<close> is the value the
  agent's constructor throws, if any; \<open>cryptoRandomId\<close> is the run identifier drawn.
  Taking the answers from the history lets every request, also a repeated one, have its
  own outcome.
\<close>

record env =
  APPS_SCRIPT_URL :: "string option"
  BRD_PROXY_ID :: "string option"
  CLOUDFLARE_ZONE_ID :: "string option"
  CLOUDFLARE_API_TOKEN :: "string option"
  net :: "event list \<Rightarrow> jsval + response"
  Date_now :: "event list \<Rightarrow> int"
  parseStringPromise :: "jsval \<Rightarrow> jsval + jsval"
  HttpsProxyAgent :: "string \<Rightarrow> jsval option"
  cryptoRandomId :: string

text \<open>The truth value of a process variable: unset and empty are both false.\<close>

definition is_set :: "string option \<Rightarrow> bool" where
  "is_set v = (case v of None \<Rightarrow> False | Some s \<Rightarrow> s \<noteq> [])"

definition DOMAINS_MAP :: "(string \<times> string) list" where
  "DOMAINS_MAP = [(''id'', ''https://divemasterlembongan.com'')]"

definition PROXIES :: "env \<Rightarrow> string \<Rightarrow> string option" where
  "PROXIES e country = (if country = ''id'' then BRD_PROXY_ID e else None)"

definition USER_AGENTS :: "string \<Rightarrow> jsval" where
  "USER_AGENTS country =
     (if country = ''id'' then JStr ''DiveMasterLembongan-CacheWarmer-ID/1.0'' else JUndefined)"

definition sleep :: "site \<Rightarrow> nat \<Rightarrow> event list \<Rightarrow> event list" where
  "sleep st ms tr = tr @ [ESleep st ms]"

section \<open>Logger\<close>

text \<open>A row is the array \<^verbatim>\<open>log\<close> pushes: twelve cells, the finish time at index 2.\<close>

record logger =
  rows :: "jsval list list"
  runId :: string
  startedAt :: string
  finishedAt :: jsval
  sheetName :: string

definition AppsScriptLogger :: "env \<Rightarrow> event list \<Rightarrow> logger" where
  "AppsScriptLogger e tr =
     \<lparr>rows = [], runId = cryptoRandomId e, startedAt = toISOString (Date_now e tr),
      finishedAt = JNull, sheetName = makeSheetNameForRun (Date_now e tr)\<rparr>"

text \<open>The argument object of \<^verbatim>\<open>log\<close>; a field left out is \<^verbatim>\<open>undefined\<close>.\<close>

record log_fields =
  l_country :: jsval
  l_url :: jsval
  l_status :: jsval
  l_cfCache :: jsval
  l_lsCache :: jsval
  l_cfRay :: jsval
  l_responseMs :: jsval
  l_error :: jsval
  l_message :: jsval

definition no_fields :: log_fields where
  "no_fields =
     \<lparr>l_country = JUndefined, l_url = JUndefined, l_status = JUndefined,
      l_cfCache = JUndefined, l_lsCache = JUndefined, l_cfRay = JUndefined,
      l_responseMs = JUndefined, l_error = JUndefined, l_message = JUndefined\<rparr>"

text \<open>
  A destructuring default applies to \<^verbatim>\<open>undefined\<close> only. The method \<^verbatim>\<open>log\<close> is
  \<open>logger_log\<close> here, \<open>log\<close> being the logarithm.
\<close>

definition dflt :: "jsval \<Rightarrow> jsval \<Rightarrow> jsval" where
  "dflt d v = (if v = JUndefined then d else v)"

definition typeof_number :: "jsval \<Rightarrow> bool" where
  "typeof_number v = (case v of JNum n \<Rightarrow> True | _ \<Rightarrow> False)"

definition logger_log :: "log_fields \<Rightarrow> logger \<Rightarrow> logger" where
  "logger_log f lg =
     lg\<lparr>rows := rows lg @
       [[JStr (runId lg),
         JStr (startedAt lg),
         finishedAt lg,
         dflt (JStr []) (l_country f),
         dflt (JStr []) (l_url f),
         dflt (JStr []) (l_status f),
         dflt (JStr []) (l_cfCache f),
         dflt (JStr []) (l_lsCache f),
         dflt (JStr []) (l_cfRay f),
         (if typeof_number (dflt (JStr []) (l_responseMs f))
          then dflt (JStr []) (l_responseMs f) else JStr []),
         (if truthy (dflt (JNum 0) (l_error f)) then JNum 1 else JNum 0),
         dflt (JStr []) (l_message f)]]\<rparr>"

text \<open>\<^verbatim>\<open>r[i] = v\<close>: in range the cell is replaced, beyond it the array grows.\<close>

definition js_set :: "jsval list \<Rightarrow> nat \<Rightarrow> jsval \<Rightarrow> jsval list" where
  "js_set r i v =
     (if i < length r then r[i := v] else r @ replicate (i - length r) JUndefined @ [v])"

text \<open>\<open>now\<close> is the time value of the \<^verbatim>\<open>new Date()\<close> that \<^verbatim>\<open>setFinished\<close> takes.\<close>

definition setFinished :: "int \<Rightarrow> logger \<Rightarrow> logger" where
  "setFinished now lg =
     (let lg1 = lg\<lparr>finishedAt := JStr (toISOString now)\<rparr>
      in lg1\<lparr>rows := map (\<lambda>r. js_set r 2 (finishedAt lg1)) (rows lg1)\<rparr>)"

text \<open>
  \<^verbatim>\<open>flush\<close>: the guard, then the request inside \<^verbatim>\<open>try\<close>; \<open>flush_try\<close> is the body of the
  \<^verbatim>\<open>try\<close>, \<open>flush\<close> adds the guard and the \<^verbatim>\<open>catch\<close>. The result is \<open>Inl\<close> for a throw.
\<close>

definition flush_try :: "env \<Rightarrow> string \<Rightarrow> logger \<Rightarrow> event list \<Rightarrow> (jsval + unit) \<times> event list" where
  "flush_try e u lg tr =
     (let tr1 = tr @ [EPostSink u (sheetName lg) (rows lg)]
      in case net e tr1 of Inl err \<Rightarrow> (Inl err, tr1) | Inr res \<Rightarrow> (Inr (), tr1))"

definition flush :: "env \<Rightarrow> logger \<Rightarrow> event list \<Rightarrow> (jsval + unit) \<times> event list" where
  "flush e lg tr =
     (case APPS_SCRIPT_URL e of
        None \<Rightarrow> (Inr (), tr)
      | Some u \<Rightarrow>
          if u = [] \<or> length (rows lg) = 0 then (Inr (), tr)
          else (case flush_try e u lg tr of
                  (Inl err, tr1) \<Rightarrow>
                    (Inr (), tr1 @ [EConsole (DLoggingError
                       (js_or (js_or (opt_prop (opt_prop err ''response'') ''data'')
                                     (opt_prop err ''message'')) err))])
                | (Inr r, tr1) \<Rightarrow> (Inr (), tr1)))"

section \<open>HTTP\<close>

text \<open>
  \<open>extra\<close> is the timeout of the \<^verbatim>\<open>extra\<close> object, the only field a caller ever passes.
  The constructor of the proxy agent may throw.
\<close>

definition buildAxiosCfg :: "env \<Rightarrow> string \<Rightarrow> nat option \<Rightarrow> jsval + axios_cfg" where
  "buildAxiosCfg e country extra =
     (let proxy = PROXIES e country;
          cfg = \<lparr>cfg_userAgent = USER_AGENTS country,
                 cfg_timeout = (case extra of None \<Rightarrow> 30000 | Some t \<Rightarrow> t),
                 cfg_httpsAgent = None\<rparr>
      in if is_set proxy
         then (case proxy of
                 None \<Rightarrow> Inr cfg
               | Some p \<Rightarrow> (case HttpsProxyAgent e p of
                              Some err \<Rightarrow> Inl err
                            | None \<Rightarrow> Inr (cfg\<lparr>cfg_httpsAgent := Some p\<rparr>)))
         else Inr cfg)"

definition fetchWithProxy ::
  "env \<Rightarrow> jsval \<Rightarrow> string \<Rightarrow> nat \<Rightarrow> event list \<Rightarrow> (jsval + jsval) \<times> event list" where
  "fetchWithProxy e url country timeout tr =
     (case buildAxiosCfg e country (Some timeout) of
        Inl err \<Rightarrow> (Inl err, tr)
      | Inr cfg \<Rightarrow>
          (let tr1 = tr @ [EGet url cfg]
           in case net e tr1 of
                Inl err \<Rightarrow> (Inl err, tr1)
              | Inr res \<Rightarrow> (Inr (res_data res), tr1)))"

section \<open>Sitemaps\<close>

text \<open>
  For each of the two functions, the body of its \<^verbatim>\<open>try\<close> and then the function with its
  \<^verbatim>\<open>catch\<close>, which returns the empty array.
\<close>

definition fetchIndexSitemaps_try ::
  "env \<Rightarrow> string \<Rightarrow> string \<Rightarrow> event list \<Rightarrow> (jsval + jsval list) \<times> event list" where
  "fetchIndexSitemaps_try e domain country tr =
     (case fetchWithProxy e (JStr (domain @ ''/sitemap_index.xml'')) country 15000 tr of
        (Inl err, tr1) \<Rightarrow> (Inl err, tr1)
      | (Inr xml, tr1) \<Rightarrow>
          (case parseStringPromise e xml of
             Inl err \<Rightarrow> (Inl err, tr1)
           | Inr result \<Rightarrow>
               (let list = opt_prop (opt_prop result ''sitemapindex'') ''sitemap''
                in if \<not> truthy list then (Inr [], tr1)
                   else (case map_loc (as_array list) of
                           Inl err \<Rightarrow> (Inl err, tr1)
                         | Inr locs \<Rightarrow> (Inr (filter truthy locs), tr1)))))"

definition fetchIndexSitemaps ::
  "env \<Rightarrow> string \<Rightarrow> string \<Rightarrow> event list \<Rightarrow> jsval list \<times> event list" where
  "fetchIndexSitemaps e domain country tr =
     (case fetchIndexSitemaps_try e domain country tr of
        (Inl err, tr1) \<Rightarrow> ([], tr1)
      | (Inr locs, tr1) \<Rightarrow> (locs, tr1))"

definition fetchUrlsFromSitemap_try ::
  "env \<Rightarrow> jsval \<Rightarrow> string \<Rightarrow> event list \<Rightarrow> (jsval + jsval list) \<times> event list" where
  "fetchUrlsFromSitemap_try e sitemapUrl country tr =
     (case fetchWithProxy e sitemapUrl country 15000 tr of
        (Inl err, tr1) \<Rightarrow> (Inl err, tr1)
      | (Inr xml, tr1) \<Rightarrow>
          (case parseStringPromise e xml of
             Inl err \<Rightarrow> (Inl err, tr1)
           | Inr result \<Rightarrow>
               (let list = opt_prop (opt_prop result ''urlset'') ''url''
                in if \<not> truthy list then (Inr [], tr1)
                   else (case map_loc (as_array list) of
                           Inl err \<Rightarrow> (Inl err, tr1)
                         | Inr locs \<Rightarrow> (Inr (filter truthy locs), tr1)))))"

definition fetchUrlsFromSitemap ::
  "env \<Rightarrow> jsval \<Rightarrow> string \<Rightarrow> event list \<Rightarrow> jsval list \<times> event list" where
  "fetchUrlsFromSitemap e sitemapUrl country tr =
     (case fetchUrlsFromSitemap_try e sitemapUrl country tr of
        (Inl err, tr1) \<Rightarrow> ([], tr1)
      | (Inr locs, tr1) \<Rightarrow> (locs, tr1))"

section \<open>Requests\<close>

text \<open>\<^verbatim>\<open>axios.isAxiosError(err)\<close>: an object whose \<^verbatim>\<open>isAxiosError\<close> is \<^verbatim>\<open>true\<close>.\<close>

definition isAxiosError :: "jsval \<Rightarrow> bool" where
  "isAxiosError err =
     (case err of JObj kvs \<Rightarrow> map_of kvs ''isAxiosError'' = Some (JBool True) | _ \<Rightarrow> False)"

text \<open>The test of \<^verbatim>\<open>retryableGet\<close> whose negation leaves the loop.\<close>

definition transient :: "jsval \<Rightarrow> bool" where
  "transient err =
     (let code = js_or (opt_prop err ''code'') (JStr [])
      in isAxiosError err \<and>
         code \<in> set [JStr ''ECONNABORTED'', JStr ''ECONNRESET'', JStr ''ETIMEDOUT''])"

text \<open>
  The loop of \<^verbatim>\<open>retryableGet\<close> from the counter \<open>i\<close> on, with the value of \<^verbatim>\<open>lastError\<close>;
  leaving the loop, by its condition or by \<^verbatim>\<open>break\<close>, throws \<^verbatim>\<open>lastError\<close>. The attempt cap
  is an integer, of either sign.
\<close>

function retry_loop ::
  "env \<Rightarrow> jsval \<Rightarrow> axios_cfg \<Rightarrow> int \<Rightarrow> int \<Rightarrow> jsval \<Rightarrow> event list \<Rightarrow>
   (jsval + response) \<times> event list" where
  "retry_loop e url cfg retries i lastError tr =
     (if i < retries then
        (let tr1 = tr @ [EGet url cfg]
         in case net e tr1 of
              Inr res \<Rightarrow> (Inr res, tr1)
            | Inl err \<Rightarrow>
                if \<not> transient err then (Inl err, tr1)
                else retry_loop e url cfg retries (i + 1) err (sleep Backoff 2000 tr1))
      else (Inl lastError, tr))"
  by pat_completeness auto
termination
  by (relation "measure (\<lambda>(e, url, cfg, retries, i, lastError, tr). nat (retries - i))") auto

declare retry_loop.simps [simp del]

definition retryableGet ::
  "env \<Rightarrow> jsval \<Rightarrow> axios_cfg \<Rightarrow> int \<Rightarrow> event list \<Rightarrow> (jsval + response) \<times> event list" where
  "retryableGet e url cfg retries tr = retry_loop e url cfg retries 0 JNull tr"

text \<open>
  The purge client. Its own \<^verbatim>\<open>try\<close> and \<^verbatim>\<open>catch\<close> cover the request, and nothing else in it
  can throw, so it returns the trace alone.
\<close>

definition purgeCloudflareCache :: "env \<Rightarrow> jsval \<Rightarrow> event list \<Rightarrow> event list" where
  "purgeCloudflareCache e url tr =
     (let tr0 = tr @ [EPurge url]
      in case (CLOUDFLARE_ZONE_ID e, CLOUDFLARE_API_TOKEN e) of
           (Some zone, Some token) \<Rightarrow>
             if zone = [] \<or> token = [] then tr0
             else (let tr1 = tr0 @ [EPostCdn zone token url]
                   in case net e tr1 of
                        Inl err \<Rightarrow> tr1 @ [EConsole (DPurgeError url)]
                      | Inr purgeRes \<Rightarrow>
                          if \<not> truthy (opt_prop (res_data purgeRes) ''success'')
                          then tr1 @ [EConsole (DPurgeFailed url)] else tr1)
         | _ \<Rightarrow> tr0)"

section \<open>Warming\<close>

text \<open>\<^verbatim>\<open>res.headers[k] || "N/A"\<close>\<close>

definition header_or_NA :: "response \<Rightarrow> string \<Rightarrow> string" where
  "header_or_NA res k =
     (case res_headers res k of None \<Rightarrow> ''N/A'' | Some v \<Rightarrow> if v = [] then ''N/A'' else v)"

definition cfEdge_of :: "string \<Rightarrow> jsval" where
  "cfEdge_of cfRay =
     (if str_includes cfRay (CHR ''-'') then str_at (split (CHR ''-'') cfRay) 1 else JStr ''N/A'')"

text \<open>
  The function mapped over a batch. \<open>warm_url_try\<close> is the body of its \<^verbatim>\<open>try\<close>, from the
  start time \<open>t0\<close>; \<open>warm_url\<close> adds the \<^verbatim>\<open>catch\<close>, in which nothing throws.
\<close>

definition warm_url_try ::
  "env \<Rightarrow> string \<Rightarrow> jsval \<Rightarrow> int \<Rightarrow> logger \<Rightarrow> event list \<Rightarrow>
   (jsval + unit) \<times> logger \<times> event list" where
  "warm_url_try e country url t0 lg tr =
     (case buildAxiosCfg e country (Some 15000) of
        Inl err \<Rightarrow> (Inl err, lg, tr)
      | Inr cfg \<Rightarrow>
          (case retryableGet e url cfg 3 tr of
             (Inl err, tr1) \<Rightarrow> (Inl err, lg, tr1)
           | (Inr res, tr1) \<Rightarrow>
               (let dt = Date_now e tr1 - t0;
                    cfCache = header_or_NA res ''cf-cache-status'';
                    lsCache = header_or_NA res ''x-litespeed-cache'';
                    cfRay = header_or_NA res ''cf-ray'';
                    cfEdge = cfEdge_of cfRay;
                    tr2 = tr1 @ [EConsole (DWarmed country url)];
                    lg1 = logger_log
                      \<lparr>l_country = cfEdge, l_url = url, l_status = JNum (res_status res),
                       l_cfCache = JStr cfCache, l_lsCache = JStr lsCache,
                       l_cfRay = JStr cfRay, l_responseMs = JNum dt, l_error = JNum 0,
                       l_message = JStr []\<rparr> lg
                in if toLowerCase lsCache \<noteq> ''hit''
                   then (Inr (), lg1, purgeCloudflareCache e url tr2)
                   else (Inr (), lg1, tr2))))"

definition warm_url ::
  "env \<Rightarrow> string \<Rightarrow> jsval \<Rightarrow> logger \<times> event list \<Rightarrow> logger \<times> event list" where
  "warm_url e country url s =
     (let t0 = Date_now e (snd s)
      in case warm_url_try e country url t0 (fst s) (snd s) of
           (Inr r, lg1, tr1) \<Rightarrow> (lg1, tr1)
         | (Inl err, lg1, tr1) \<Rightarrow>
             (let dt = Date_now e tr1 - t0;
                  tr2 = tr1 @ [EConsole (DWarmFailed country url)]
              in (logger_log
                    (no_fields\<lparr>l_country := JStr country, l_url := url,
                       l_responseMs := JNum dt, l_error := JNum 1,
                       l_message := js_or (opt_prop err ''message'') (JStr ''request failed'')\<rparr>)
                    lg1, tr2)))"

text \<open>
  \<^verbatim>\<open>Math.ceil(n / b)\<close> for a length \<open>n\<close> and \<open>b > 0\<close>, in integer arithmetic, and
  \<^verbatim>\<open>xs.slice(a, b)\<close> for \<open>a \<le> b\<close>.
\<close>

definition ceil_div :: "nat \<Rightarrow> nat \<Rightarrow> nat" where
  "ceil_div n b = (n + b - 1) div b"

definition slice :: "'a list \<Rightarrow> nat \<Rightarrow> nat \<Rightarrow> 'a list" where
  "slice xs a b = take (b - a) (drop a xs)"

definition make_batches :: "'a list \<Rightarrow> nat \<Rightarrow> 'a list list" where
  "make_batches urls batchSize =
     map (\<lambda>i. slice urls (i * batchSize) (i * batchSize + batchSize))
       [0 ..< ceil_div (length urls) batchSize]"

text \<open>
  The loop over the batches. The members of a batch start together and do not depend on
  each other; the model runs them in the order of the batch, which is the only order when
  the batch size is 1, the size the program uses. The loop goes on to the delay once all
  members are done.
\<close>

fun run_batches ::
  "env \<Rightarrow> string \<Rightarrow> nat \<Rightarrow> jsval list list \<Rightarrow> logger \<times> event list \<Rightarrow> logger \<times> event list" where
  "run_batches e country delay [] s = s"
| "run_batches e country delay (batch # batches) s =
     (let s1 = fold (warm_url e country) batch s
      in run_batches e country delay batches (fst s1, sleep InterBatch delay (snd s1)))"

text \<open>
  The batch size and the delay are natural numbers here. With size 0 the length handed
  to \<^verbatim>\<open>Array.from\<close> is infinite for a non-empty list, a RangeError, and not a number for
  the empty list, which counts as 0.
\<close>

definition warmUrls ::
  "env \<Rightarrow> jsval list \<Rightarrow> string \<Rightarrow> logger \<Rightarrow> nat \<Rightarrow> nat \<Rightarrow> event list \<Rightarrow>
   (jsval + unit) \<times> logger \<times> event list" where
  "warmUrls e urls country lg batchSize delay tr =
     (if batchSize = 0 then
        (if urls = [] then (Inr (), lg, tr) else (Inl RangeError, lg, tr))
      else (let s = run_batches e country delay (make_batches urls batchSize) (lg, tr)
            in (Inr (), fst s, snd s)))"

section \<open>Main\<close>

text \<open>
  The child sitemaps. The program starts their requests together and collects the
  results in the order of the index; no request can make another fail, so the model
  takes them one after the other in that order.
\<close>

fun fetch_children ::
  "env \<Rightarrow> string \<Rightarrow> jsval list \<Rightarrow> event list \<Rightarrow> jsval list list \<times> event list" where
  "fetch_children e country [] tr = ([], tr)"
| "fetch_children e country (s # ss) tr =
     (let r = fetchUrlsFromSitemap e s country tr;
          rs = fetch_children e country ss (snd r)
      in (fst r # fst rs, snd rs))"

text \<open>The list handed to the warmer: \<^verbatim>\<open>urlArrays.flat().filter(Boolean)\<close>.\<close>

definition resolve_urls ::
  "env \<Rightarrow> string \<Rightarrow> string \<Rightarrow> event list \<Rightarrow> jsval list \<times> event list" where
  "resolve_urls e country domain tr =
     (let r = fetchIndexSitemaps e domain country tr;
          rs = fetch_children e country (fst r) (snd r)
      in (filter truthy (concat (fst rs)), snd rs))"

text \<open>The function mapped over the entries of \<^verbatim>\<open>DOMAINS_MAP\<close>.\<close>

definition domain_pipeline ::
  "env \<Rightarrow> string \<times> string \<Rightarrow> logger \<Rightarrow> event list \<Rightarrow> (jsval + unit) \<times> logger \<times> event list" where
  "domain_pipeline e entry lg tr =
     (let country = fst entry;
          domain = snd entry;
          r = resolve_urls e country domain tr;
          urls = fst r;
          tr1 = snd r @ [EConsole (DFound country (length urls))];
          lg1 = logger_log
            (no_fields\<lparr>l_country := JStr country,
               l_message := JStr (''Found '' @ show_nat (length urls) @ '' URLs for '' @ country)\<rparr>)
            lg
      in warmUrls e urls country lg1 1 2000 tr1)"

text \<open>
  The entries one after the other (the map has one); a rejection of one pipeline is the
  rejection of \<^verbatim>\<open>Promise.all\<close> and does not stop the pipelines already started.
\<close>

fun run_domains ::
  "env \<Rightarrow> (string \<times> string) list \<Rightarrow> logger \<Rightarrow> event list \<Rightarrow>
   (jsval + unit) \<times> logger \<times> event list" where
  "run_domains e [] lg tr = (Inr (), lg, tr)"
| "run_domains e (entry # entries) lg tr =
     (case domain_pipeline e entry lg tr of
        (r, lg1, tr1) \<Rightarrow>
          (case run_domains e entries lg1 tr1 of
             (rs, lg2, tr2) \<Rightarrow> ((case r of Inl err \<Rightarrow> Inl err | Inr u \<Rightarrow> rs), lg2, tr2)))"

text \<open>
  The whole run: the \<^verbatim>\<open>try\<close>, then the \<^verbatim>\<open>finally\<close>, which finishes and flushes the logger
  and lets a throw of the \<^verbatim>\<open>try\<close> pass unless it throws itself.
\<close>

definition main :: "env \<Rightarrow> (jsval + unit) \<times> logger \<times> event list" where
  "main e =
     (let tr0 = [EConsole DStarted];
          logger0 = AppsScriptLogger e tr0
      in case run_domains e DOMAINS_MAP logger0 tr0 of
           (r, lg1, tr1) \<Rightarrow>
             (let lg2 = setFinished (Date_now e tr1) lg1
              in case flush e lg2 tr1 of
                   (Inl err, tr2) \<Rightarrow> (Inl err, lg2, tr2)
                 | (Inr u, tr2) \<Rightarrow>
                     (case r of
                        Inl err \<Rightarrow> (Inl err, lg2, tr2)
                      | Inr v \<Rightarrow> (Inr (), lg2, tr2 @ [EConsole DFinished]))))"

section \<open>Reading a trace\<close>





text \<open>
  What \<open>k\<close> attempts that fail with a transient error leave in the trace, and the answer
  to the attempt of index \<open>k\<close> when all before it failed so.
\<close>

definition failed_attempts :: "jsval \<Rightarrow> axios_cfg \<Rightarrow> nat \<Rightarrow> event list" where
  "failed_attempts url cfg k = concat (replicate k [EGet url cfg, ESleep Backoff 2000])"

definition attempt_outcome ::
  "env \<Rightarrow> jsval \<Rightarrow> axios_cfg \<Rightarrow> event list \<Rightarrow> nat \<Rightarrow> jsval + response" where
  "attempt_outcome e url cfg tr k = net e (tr @ failed_attempts url cfg k @ [EGet url cfg])"

definition transient_failure :: "jsval + response \<Rightarrow> bool" where
  "transient_failure r = (case r of Inl err \<Rightarrow> transient err | Inr res \<Rightarrow> False)"

text \<open>
  The URLs the purge client was called for, the URLs of the requests sent to the CDN, and
  whether the purge client has both its credentials.
\<close>

definition purge_calls :: "event list \<Rightarrow> jsval list" where
  "purge_calls tr = concat (map (\<lambda>ev. case ev of EPurge url \<Rightarrow> [url] | _ \<Rightarrow> []) tr)"

definition cdn_requests :: "event list \<Rightarrow> jsval list" where
  "cdn_requests tr =
     concat (map (\<lambda>ev. case ev of EPostCdn zone token url \<Rightarrow> [url] | _ \<Rightarrow> []) tr)"

definition purge_configured :: "env \<Rightarrow> bool" where
  "purge_configured e = (is_set (CLOUDFLARE_ZONE_ID e) \<and> is_set (CLOUDFLARE_API_TOKEN e))"




section \<open>The words of the specification\<close>

text \<open>
  A header value that equals "hit" when case is ignored: one of the eight spellings. An
  absent header equals nothing.
\<close>

definition equals_hit_ignoring_case :: "string option \<Rightarrow> bool" where
  "equals_hit_ignoring_case h =
     (case h of
        None \<Rightarrow> False
      | Some v \<Rightarrow> v \<in> set [''hit'', ''hiT'', ''hIt'', ''hIT'', ''Hit'', ''HiT'', ''HIt'', ''HIT''])"

text \<open>
  The edge location as the specification words it: the trace header split on its first
  hyphen, the second of the two parts taken, and "N/A" for an absent header or one
  without a hyphen. \<open>edge_location\<close> cuts that part at its own first hyphen.
\<close>

definition edge_location_spec :: "string option \<Rightarrow> string" where
  "edge_location_spec h =
     (case h of
        None \<Rightarrow> ''N/A''
      | Some ray \<Rightarrow>
          if CHR ''-'' \<in> set ray then tl (dropWhile (\<lambda>x. x \<noteq> CHR ''-'') ray) else ''N/A'')"

definition edge_location :: "string option \<Rightarrow> string" where
  "edge_location h = takeWhile (\<lambda>x. x \<noteq> CHR ''-'') (edge_location_spec h)"

section \<open>Example inputs\<close>

text \<open>
  Concrete values at which the theorems below are instantiated. In \<open>example_env\<close> every
  request fails with a connection reset, and the parser hands back what it is given.
\<close>

definition reset_error :: jsval where
  "reset_error =
     JObj [(''isAxiosError'', JBool True), (''code'', JStr ''ECONNRESET''),
           (''message'', JStr ''socket hang up'')]"


definition example_env :: env where
  "example_env =
     \<lparr>APPS_SCRIPT_URL = Some ''https://script.example/exec'', BRD_PROXY_ID = None,
      CLOUDFLARE_ZONE_ID = Some ''zone'', CLOUDFLARE_API_TOKEN = Some ''token'',
      net = (\<lambda>tr. Inl reset_error), Date_now = (\<lambda>tr. 1700000000000 + int (length tr)),
      parseStringPromise = (\<lambda>xml. Inr xml), HttpsProxyAgent = (\<lambda>p. None),
      cryptoRandomId = ''k3x9''\<rparr>"

definition example_cfg :: axios_cfg where
  "example_cfg =
     \<lparr>cfg_userAgent = USER_AGENTS ''id'', cfg_timeout = 15000, cfg_httpsAgent = None\<rparr>"

definition example_url :: jsval where
  "example_url = JStr ''https://example.com/a''"



definition example_index_url :: jsval where
  "example_index_url = JStr ''https://divemasterlembongan.com/sitemap_index.xml''"

text \<open>A logger with a summary row and a failure row, not yet finished.\<close>

definition example_logger :: logger where
  "example_logger =
     logger_log
       (no_fields\<lparr>l_country := JStr ''id'', l_url := JStr ''https://example.com/a'',
          l_responseMs := JNum 12, l_error := JNum 1\<rparr>)
       (logger_log
          (no_fields\<lparr>l_country := JStr ''id'', l_message := JStr ''Found 1 URLs for id''\<rparr>)
          (AppsScriptLogger example_env []))"

text \<open>
  Responses: a miss at the secondary cache, a hit spelled \<^verbatim>\<open>HiT\<close>, and a trace header
  with two hyphens.
\<close>

definition ok_response :: response where
  "ok_response =
     \<lparr>res_status = 200,
      res_headers = [''cf-cache-status'' \<mapsto> ''HIT'', ''x-litespeed-cache'' \<mapsto> ''miss'',
                     ''cf-ray'' \<mapsto> ''abcd-SIN''],
      res_data = JStr []\<rparr>"

definition hit_response :: response where
  "hit_response =
     ok_response\<lparr>res_headers := (res_headers ok_response)(''x-litespeed-cache'' \<mapsto> ''HiT'')\<rparr>"

definition hyphen_response :: response where
  "hyphen_response =
     ok_response\<lparr>res_headers := (res_headers ok_response)(''cf-ray'' \<mapsto> ''ab-SIN-x'')\<rparr>"

text \<open>
  Environments: one transient failure and then a response; one transient failure and then
  a DNS failure; always the hit; always the response with two hyphens.
\<close>

definition flaky_env :: env where
  "flaky_env =
     example_env\<lparr>net := (\<lambda>tr. if length tr < 3 then Inl reset_error else Inr ok_response)\<rparr>"


definition hit_env :: env where
  "hit_env = example_env\<lparr>net := (\<lambda>tr. Inr hit_response)\<rparr>"

definition hyphen_env :: env where
  "hyphen_env = example_env\<lparr>net := (\<lambda>tr. Inr hyphen_response)\<rparr>"

text \<open>
  Sitemaps. \<open>requested\<close> is the URL of the request a history ends with. The example
  parser knows an index that lists two child sitemaps and a child that lists one page,
  and rejects everything else. In \<open>dup_env\<close> both children are served and list the same
  page; in \<open>child_fail_env\<close> the index is served and every child request fails; in
  \<open>badxml_env\<close> the index is served with a body the parser rejects.
\<close>

definition requested :: "event list \<Rightarrow> jsval" where
  "requested tr = (case last tr of EGet url cfg \<Rightarrow> url | _ \<Rightarrow> JUndefined)"

definition example_parse :: "jsval \<Rightarrow> jsval + jsval" where
  "example_parse xml =
     (if xml = JStr ''index''
      then Inr (JObj [(''sitemapindex'', JObj [(''sitemap'',
             JArr [JObj [(''loc'', JStr ''https://example.com/s1.xml'')],
                   JObj [(''loc'', JStr ''https://example.com/s2.xml'')]])])])
      else if xml = JStr ''child''
      then Inr (JObj [(''urlset'', JObj [(''url'',
             JObj [(''loc'', JStr ''https://example.com/a'')])])])
      else Inl (JStr ''Non-whitespace before first tag.''))"


definition child_fail_env :: env where
  "child_fail_env =
     example_env
       \<lparr>net := (\<lambda>tr. if requested tr = example_index_url
                      then Inr (hit_response\<lparr>res_data := JStr ''index''\<rparr>)
                      else Inl reset_error),
        parseStringPromise := example_parse\<rparr>"

definition badxml_env :: env where
  "badxml_env =
     example_env\<lparr>net := (\<lambda>tr. Inr hit_response), parseStringPromise := example_parse\<rparr>"

section \<open>The logger\<close>

lemma toISOString_nonempty: "toISOString t \<noteq> []"
  by (simp add: toISOString_def)

lemma index_in_js_set: "i < length (js_set r i v)"
  by (simp add: js_set_def)

lemma length_js_set_in_range: "i < length r \<Longrightarrow> length (js_set r i v) = length r"
  by (simp add: js_set_def)

lemma js_set_same: "js_set r i v ! i = v"
  by (simp add: js_set_def nth_append)

lemma js_set_other: "j < length r \<Longrightarrow> j \<noteq> i \<Longrightarrow> js_set r i v ! j = r ! j"
  by (simp add: js_set_def nth_append)

lemma rows_setFinished:
  "rows (setFinished now lg) = map (\<lambda>r. js_set r 2 (JStr (toISOString now))) (rows lg)"
  by (simp add: setFinished_def Let_def)

lemma finishedAt_setFinished: "finishedAt (setFinished now lg) = JStr (toISOString now)"
  by (simp add: setFinished_def Let_def)

lemma rows_example_logger: "length (rows example_logger) = 2"
  by code_simp

text \<open>
  C5. After \<open>setFinished\<close>, the finish time of the logger is the ISO string of the time
  taken, which is not empty, and every row the logger held carries exactly that string in
  its finish cell (index 2), also the rows that were logged with \<^verbatim>\<open>null\<close> there.
\<close>

theorem setFinished_stamps_every_row:
  "finishedAt (setFinished now lg) = JStr (toISOString now) \<and>
   toISOString now \<noteq> [] \<and>
   length (rows (setFinished now lg)) = length (rows lg) \<and>
   (\<forall>i < length (rows lg).
      2 < length (rows (setFinished now lg) ! i) \<and>
      rows (setFinished now lg) ! i ! 2 = finishedAt (setFinished now lg))"
  by (simp add: rows_setFinished finishedAt_setFinished toISOString_nonempty
      index_in_js_set js_set_same)

theorem setFinished_stamps_every_row_witness:
  "(1::nat) < length (rows example_logger) \<and>
   rows example_logger ! 1 ! 2 = JNull \<and>
   rows (setFinished 1700000000123 example_logger) ! 1 ! 2 = JStr ''2023-11-14T22:13:20.123Z''"
proof -
  have len: "(1::nat) < length (rows example_logger)"
    by (simp add: rows_example_logger)
  have before: "rows example_logger ! 1 ! 2 = JNull"
    by code_simp
  have iso: "toISOString 1700000000123 = ''2023-11-14T22:13:20.123Z''"
    by code_simp
  from setFinished_stamps_every_row [of 1700000000123 example_logger] len
  have "rows (setFinished 1700000000123 example_logger) ! 1 ! 2 =
        JStr (toISOString 1700000000123)"
    by simp
  with len before iso show ?thesis by simp
qed

text \<open>
  C10. \<open>setFinished\<close> keeps the number and the order of the rows; in every row each cell
  other than the finish cell (index 2) is what it was, and a row that has a finish cell
  keeps its length (every row \<open>logger_log\<close> builds has twelve cells). The run identifier,
  the start time and the sheet name of the logger stay as they were.
\<close>

theorem setFinished_changes_only_finish_cell:
  "length (rows (setFinished now lg)) = length (rows lg) \<and>
   (\<forall>i < length (rows lg).
      (\<forall>j < length (rows lg ! i). j \<noteq> 2 \<longrightarrow>
         rows (setFinished now lg) ! i ! j = rows lg ! i ! j) \<and>
      (2 < length (rows lg ! i) \<longrightarrow>
         length (rows (setFinished now lg) ! i) = length (rows lg ! i))) \<and>
   runId (setFinished now lg) = runId lg \<and>
   startedAt (setFinished now lg) = startedAt lg \<and>
   sheetName (setFinished now lg) = sheetName lg"
  by (simp add: rows_setFinished js_set_other length_js_set_in_range)
    (simp add: setFinished_def Let_def)

theorem setFinished_changes_only_finish_cell_witness:
  "(1::nat) < length (rows example_logger) \<and> (4::nat) < length (rows example_logger ! 1) \<and>
   (4::nat) \<noteq> 2 \<and>
   rows (setFinished 1700000000123 example_logger) ! 1 ! 4 = JStr ''https://example.com/a'' \<and>
   length (rows (setFinished 1700000000123 example_logger) ! 1) = 12"
proof -
  have len: "(1::nat) < length (rows example_logger)"
    by (simp add: rows_example_logger)
  have row: "length (rows example_logger ! 1) = 12"
    by code_simp
  have cell: "rows example_logger ! 1 ! 4 = JStr ''https://example.com/a''"
    by code_simp
  from setFinished_changes_only_finish_cell [of 1700000000123 example_logger] len row
  have "rows (setFinished 1700000000123 example_logger) ! 1 ! 4 = rows example_logger ! 1 ! 4"
    and "length (rows (setFinished 1700000000123 example_logger) ! 1) = 12"
    by simp_all
  with len row cell show ?thesis by simp
qed

text \<open>
  C8. \<open>flush\<close> never throws. With no sink configured, or with no rows, it leaves the trace
  as it is: no request. Otherwise it posts the rows once; when that request fails, the
  failure ends in one diagnostic line and nowhere else.
\<close>

theorem flush_never_raises:
  "fst (flush e lg tr) = Inr () \<and>
   (\<not> is_set (APPS_SCRIPT_URL e) \<or> rows lg = [] \<longrightarrow> snd (flush e lg tr) = tr) \<and>
   (\<forall>u. APPS_SCRIPT_URL e = Some u \<and> u \<noteq> [] \<and> rows lg \<noteq> [] \<longrightarrow>
      (case net e (tr @ [EPostSink u (sheetName lg) (rows lg)]) of
         Inr res \<Rightarrow> snd (flush e lg tr) = tr @ [EPostSink u (sheetName lg) (rows lg)]
       | Inl err \<Rightarrow>
           (\<exists>d. snd (flush e lg tr) =
              tr @ [EPostSink u (sheetName lg) (rows lg), EConsole (DLoggingError d)])))"
  by (auto simp: flush_def flush_try_def is_set_def Let_def split: option.splits sum.splits)

theorem flush_never_raises_witness:
  "\<not> is_set (APPS_SCRIPT_URL (example_env\<lparr>APPS_SCRIPT_URL := None\<rparr>)) \<and>
   flush (example_env\<lparr>APPS_SCRIPT_URL := None\<rparr>) example_logger [] = (Inr (), []) \<and>
   rows (AppsScriptLogger example_env []) = [] \<and>
   flush example_env (AppsScriptLogger example_env []) [] = (Inr (), []) \<and>
   APPS_SCRIPT_URL example_env = Some ''https://script.example/exec'' \<and>
   rows example_logger \<noteq> [] \<and>
   fst (flush example_env example_logger []) = Inr () \<and>
   length (snd (flush example_env example_logger [])) = 2"
proof -
  have unset: "\<not> is_set (APPS_SCRIPT_URL (example_env\<lparr>APPS_SCRIPT_URL := None\<rparr>))"
    by (simp add: is_set_def)
  have norows: "rows (AppsScriptLogger example_env []) = []"
    by (simp add: AppsScriptLogger_def)
  have url: "APPS_SCRIPT_URL example_env = Some ''https://script.example/exec''"
    by (simp add: example_env_def)
  have somerows: "rows example_logger \<noteq> []"
    by (simp add: example_logger_def logger_log_def)
  have fails: "net example_env t = Inl reset_error" for t
    by (simp add: example_env_def)
  from flush_never_raises [of "example_env\<lparr>APPS_SCRIPT_URL := None\<rparr>" example_logger "[]"] unset
  have a: "flush (example_env\<lparr>APPS_SCRIPT_URL := None\<rparr>) example_logger [] = (Inr (), [])"
    by (simp add: prod_eq_iff)
  from flush_never_raises [of example_env "AppsScriptLogger example_env []" "[]"] norows
  have b: "flush example_env (AppsScriptLogger example_env []) [] = (Inr (), [])"
    by (simp add: prod_eq_iff)
  from flush_never_raises [of example_env example_logger "[]"] url somerows fails
  have c: "fst (flush example_env example_logger []) = Inr ()"
    and d: "length (snd (flush example_env example_logger [])) = 2"
    by auto
  from unset norows url somerows a b c d show ?thesis by simp
qed

section \<open>Retrying requests\<close>

text \<open>
  C9. With an attempt cap of 0 or less, \<open>retryableGet\<close> issues no request (the trace is
  unchanged) and throws \<^verbatim>\<open>null\<close>, the initial value of \<^verbatim>\<open>lastError\<close>.
\<close>

theorem retryableGet_nonpositive_cap:
  "retries \<le> 0 \<Longrightarrow> retryableGet e url cfg retries tr = (Inl JNull, tr)"
  by (simp add: retryableGet_def retry_loop.simps)

theorem retryableGet_nonpositive_cap_witness:
  "(0::int) \<le> 0 \<and>
   retryableGet example_env (JStr ''https://example.com/a'') example_cfg 0 [] = (Inl JNull, [])"
  using retryableGet_nonpositive_cap
    [of 0 example_env "JStr ''https://example.com/a''" example_cfg "[]"]
  by simp

lemma failed_attempts_Suc:
  "failed_attempts url cfg (Suc k) = [EGet url cfg, ESleep Backoff 2000] @ failed_attempts url cfg k"
  by (simp add: failed_attempts_def)

lemma failed_attempts_0: "failed_attempts url cfg 0 = []"
  by (simp add: failed_attempts_def)

lemma attempt_outcome_shift:
  "attempt_outcome e url cfg (tr @ [EGet url cfg, ESleep Backoff 2000]) k =
   attempt_outcome e url cfg tr (Suc k)"
  by (simp add: attempt_outcome_def failed_attempts_Suc)

lemma retry_loop_step_transient:
  assumes "i < retries" "net e (tr @ [EGet url cfg]) = Inl err" "transient err"
  shows "retry_loop e url cfg retries i lastError tr =
         retry_loop e url cfg retries (i + 1) err (tr @ [EGet url cfg, ESleep Backoff 2000])"
  using assms by (subst retry_loop.simps) (simp add: sleep_def)

lemma retry_loop_decided:
  assumes "int k < retries - i"
    and "\<forall>j<k. transient_failure (attempt_outcome e url cfg tr j)"
    and "\<not> transient_failure (attempt_outcome e url cfg tr k)"
  shows "retry_loop e url cfg retries i lastError tr =
         (case attempt_outcome e url cfg tr k of Inl err \<Rightarrow> Inl err | Inr res \<Rightarrow> Inr res,
          tr @ failed_attempts url cfg k @ [EGet url cfg])"
  using assms
proof (induction k arbitrary: i lastError tr)
  case 0
  then have lt: "i < retries" by simp
  from 0 have nt: "\<not> transient_failure (net e (tr @ [EGet url cfg]))"
    by (simp add: attempt_outcome_def failed_attempts_0)
  show ?case
    using lt nt
    by (subst retry_loop.simps)
      (simp add: attempt_outcome_def failed_attempts_0 transient_failure_def split: sum.splits)
next
  case (Suc k)
  from Suc.prems(2) have "transient_failure (attempt_outcome e url cfg tr 0)" by blast
  then obtain err where err: "net e (tr @ [EGet url cfg]) = Inl err" "transient err"
    by (auto simp: attempt_outcome_def failed_attempts_0 transient_failure_def split: sum.splits)
  from Suc.prems(1) have lt: "i < retries" and lt': "int k < retries - (i + 1)" by simp_all
  let ?tr = "tr @ [EGet url cfg, ESleep Backoff 2000]"
  have a: "\<forall>j<k. transient_failure (attempt_outcome e url cfg ?tr j)"
    using Suc.prems(2) by (simp add: attempt_outcome_shift)
  have b: "\<not> transient_failure (attempt_outcome e url cfg ?tr k)"
    using Suc.prems(3) by (simp add: attempt_outcome_shift)
  have "retry_loop e url cfg retries i lastError tr = retry_loop e url cfg retries (i + 1) err ?tr"
    using lt err by (rule retry_loop_step_transient)
  also have "\<dots> = (case attempt_outcome e url cfg ?tr k of Inl err \<Rightarrow> Inl err | Inr res \<Rightarrow> Inr res,
          ?tr @ failed_attempts url cfg k @ [EGet url cfg])"
    using lt' a b by (rule Suc.IH)
  finally show ?case
    by (simp add: attempt_outcome_shift failed_attempts_Suc)
qed

lemma retry_loop_exhausted:
  assumes "int n = retries - i"
    and "\<forall>j<n. transient_failure (attempt_outcome e url cfg tr j)"
  shows "retry_loop e url cfg retries i lastError tr =
         (Inl (if n = 0 then lastError
               else (case attempt_outcome e url cfg tr (n - 1) of Inl err \<Rightarrow> err | Inr res \<Rightarrow> lastError)),
          tr @ failed_attempts url cfg n)"
  using assms
proof (induction n arbitrary: i lastError tr)
  case 0
  then show ?case
    by (subst retry_loop.simps) (simp add: failed_attempts_0)
next
  case (Suc n)
  from Suc.prems(2) have "transient_failure (attempt_outcome e url cfg tr 0)" by blast
  then obtain err where err: "net e (tr @ [EGet url cfg]) = Inl err" "transient err"
    by (auto simp: attempt_outcome_def failed_attempts_0 transient_failure_def split: sum.splits)
  from Suc.prems(1) have lt: "i < retries" and eq: "int n = retries - (i + 1)" by simp_all
  let ?tr = "tr @ [EGet url cfg, ESleep Backoff 2000]"
  have a: "\<forall>j<n. transient_failure (attempt_outcome e url cfg ?tr j)"
    using Suc.prems(2) by (simp add: attempt_outcome_shift)
  have "retry_loop e url cfg retries i lastError tr = retry_loop e url cfg retries (i + 1) err ?tr"
    using lt err by (rule retry_loop_step_transient)
  also have "\<dots> = (Inl (if n = 0 then err
               else (case attempt_outcome e url cfg ?tr (n - 1) of Inl err' \<Rightarrow> err' | Inr res \<Rightarrow> err)),
          ?tr @ failed_attempts url cfg n)"
    using eq a by (rule Suc.IH)
  finally show ?case
    using err Suc.prems(2)
    apply (simp add: attempt_outcome_shift failed_attempts_Suc)
    apply (cases n)
     apply (simp add: attempt_outcome_def failed_attempts_0)
    apply (auto simp: transient_failure_def split: sum.splits)
    done
qed



lemma set_failed_attempts:
  "set (failed_attempts url cfg k) \<subseteq> {EGet url cfg, ESleep Backoff 2000}"
  by (induction k) (auto simp: failed_attempts_def)

lemma retryableGet_shape:
  assumes "0 \<le> retries"
  shows "(\<exists>k. int k < retries \<and> (\<forall>j<k. transient_failure (attempt_outcome e url cfg tr j)) \<and>
              \<not> transient_failure (attempt_outcome e url cfg tr k) \<and>
              snd (retryableGet e url cfg retries tr) =
                tr @ failed_attempts url cfg k @ [EGet url cfg]) \<or>
         ((\<forall>j<nat retries. transient_failure (attempt_outcome e url cfg tr j)) \<and>
          snd (retryableGet e url cfg retries tr) = tr @ failed_attempts url cfg (nat retries))"
proof (cases "\<exists>k. k < nat retries \<and> \<not> transient_failure (attempt_outcome e url cfg tr k)")
  case True
  then obtain k where k: "k < nat retries \<and> \<not> transient_failure (attempt_outcome e url cfg tr k)"
    and least: "\<forall>m<k. \<not> (m < nat retries \<and> \<not> transient_failure (attempt_outcome e url cfg tr m))"
    using exists_least_iff [of "\<lambda>k. k < nat retries \<and> \<not> transient_failure (attempt_outcome e url cfg tr k)"]
    by blast
  from k have lt: "int k < retries - 0" by linarith
  from k least have before: "\<forall>j<k. transient_failure (attempt_outcome e url cfg tr j)"
    by (meson less_trans)
  from k have nt: "\<not> transient_failure (attempt_outcome e url cfg tr k)" by simp
  have "snd (retryableGet e url cfg retries tr) = tr @ failed_attempts url cfg k @ [EGet url cfg]"
    unfolding retryableGet_def using retry_loop_decided [OF lt before nt] by simp
  with k before show ?thesis using lt by auto
next
  case False
  then have all: "\<forall>j<nat retries. transient_failure (attempt_outcome e url cfg tr j)" by blast
  have eq: "int (nat retries) = retries - 0" using assms by simp
  have "snd (retryableGet e url cfg retries tr) = tr @ failed_attempts url cfg (nat retries)"
    unfolding retryableGet_def using retry_loop_exhausted [OF eq all] by simp
  with all show ?thesis by simp
qed





section \<open>Warming one URL\<close>

lemma of_char_lower_char:
  "(of_char (lower_char c) :: nat) =
     (if (65 \<le> (of_char c :: nat) \<and> (of_char c :: nat) \<le> 90) \<or>
         (192 \<le> (of_char c :: nat) \<and> (of_char c :: nat) \<le> 222 \<and> (of_char c :: nat) \<noteq> 215)
      then of_char c + 32 else of_char c)"
  by (simp add: lower_char_def Let_def)

lemma char_eq_by_code: "c = d \<longleftrightarrow> (of_char c :: nat) = of_char d"
  by simp

lemma lower_char_h: "lower_char c = CHR ''h'' \<longleftrightarrow> c = CHR ''h'' \<or> c = CHR ''H''"
  unfolding char_eq_by_code [of _ "CHR ''h''"] char_eq_by_code [of _ "CHR ''H''"] of_char_lower_char
  by (simp split: if_splits) arith

lemma lower_char_i: "lower_char c = CHR ''i'' \<longleftrightarrow> c = CHR ''i'' \<or> c = CHR ''I''"
  unfolding char_eq_by_code [of _ "CHR ''i''"] char_eq_by_code [of _ "CHR ''I''"] of_char_lower_char
  by (simp split: if_splits) arith

lemma lower_char_t: "lower_char c = CHR ''t'' \<longleftrightarrow> c = CHR ''t'' \<or> c = CHR ''T''"
  unfolding char_eq_by_code [of _ "CHR ''t''"] char_eq_by_code [of _ "CHR ''T''"] of_char_lower_char
  by (simp split: if_splits) arith

lemma three_letters:
  "(a = x1 \<or> a = x2) \<and> (b = y1 \<or> b = y2) \<and> (c = z1 \<or> c = z2) \<and> r = [] \<longleftrightarrow>
   a # b # c # r \<in> set [[x1, y1, z1], [x1, y1, z2], [x1, y2, z1], [x1, y2, z2],
                          [x2, y1, z1], [x2, y1, z2], [x2, y2, z1], [x2, y2, z2]]"
  by auto

lemma map_eq_three:
  "map f v = [x, y, z] \<longleftrightarrow> (\<exists>a b c. v = [a, b, c] \<and> f a = x \<and> f b = y \<and> f c = z)"
  by (auto simp: map_eq_Cons_conv)

lemma three_element_member:
  assumes "\<forall>w \<in> set ws. length w = 3"
  shows "(\<exists>a b c. v = [a, b, c] \<and> a # b # c # [] \<in> set ws) \<longleftrightarrow> v \<in> set ws"
proof
  assume "v \<in> set ws"
  with assms have "length v = 3" by blast
  then obtain a b c where "v = [a, b, c]"
    by (auto simp: numeral_3_eq_3 length_Suc_conv)
  with \<open>v \<in> set ws\<close> show "\<exists>a b c. v = [a, b, c] \<and> a # b # c # [] \<in> set ws" by blast
qed blast

lemma toLowerCase_hit:
  "toLowerCase v = ''hit'' \<longleftrightarrow>
   v \<in> set [''hit'', ''hiT'', ''hIt'', ''hIT'', ''Hit'', ''HiT'', ''HIt'', ''HIT'']"
proof -
  have "toLowerCase v = ''hit'' \<longleftrightarrow>
        (\<exists>a b c. v = [a, b, c] \<and> lower_char a = CHR ''h'' \<and> lower_char b = CHR ''i'' \<and>
           lower_char c = CHR ''t'')"
    unfolding toLowerCase_def by (rule map_eq_three)
  also have "\<dots> \<longleftrightarrow> (\<exists>a b c. v = [a, b, c] \<and>
      (a = CHR ''h'' \<or> a = CHR ''H'') \<and> (b = CHR ''i'' \<or> b = CHR ''I'') \<and>
      (c = CHR ''t'' \<or> c = CHR ''T'') \<and> ([]::string) = [])"
    by (simp only: lower_char_h lower_char_i lower_char_t simp_thms)
  also have "\<dots> \<longleftrightarrow> (\<exists>a b c. v = [a, b, c] \<and>
      a # b # c # [] \<in> set [''hit'', ''hiT'', ''hIt'', ''hIT'', ''Hit'', ''HiT'', ''HIt'', ''HIT''])"
    by (simp only: three_letters)
  also have "\<dots> \<longleftrightarrow> v \<in> set [''hit'', ''hiT'', ''hIt'', ''hIT'', ''Hit'', ''HiT'', ''HIt'', ''HIT'']"
    by (rule three_element_member) simp
  finally show ?thesis .
qed

lemma split_unfold:
  "split c s =
     takeWhile (\<lambda>x. x \<noteq> c) s #
     (if c \<in> set s then split c (tl (dropWhile (\<lambda>x. x \<noteq> c) s)) else [])"
  by (induction s) auto

lemma split_second:
  assumes "c \<in> set s"
  shows "str_at (split c s) 1 = JStr (takeWhile (\<lambda>x. x \<noteq> c) (tl (dropWhile (\<lambda>x. x \<noteq> c) s)))"
proof -
  let ?rest = "tl (dropWhile (\<lambda>x. x \<noteq> c) s)"
  have "split c s = takeWhile (\<lambda>x. x \<noteq> c) s # split c ?rest"
    using assms by (subst split_unfold) simp
  also have "split c ?rest = takeWhile (\<lambda>x. x \<noteq> c) ?rest #
      (if c \<in> set ?rest then split c (tl (dropWhile (\<lambda>x. x \<noteq> c) ?rest)) else [])"
    by (rule split_unfold)
  finally show ?thesis by (simp add: str_at_def)
qed

lemma cfEdge_of_header:
  "cfEdge_of (header_or_NA res ''cf-ray'') = JStr (edge_location (res_headers res ''cf-ray''))"
proof (cases "res_headers res ''cf-ray''")
  case None
  then show ?thesis
    by (simp add: header_or_NA_def cfEdge_of_def str_includes_def edge_location_def
        edge_location_spec_def)
next
  case (Some ray)
  show ?thesis
  proof (cases "ray = []")
    case True
    with Some show ?thesis
      by (simp add: header_or_NA_def cfEdge_of_def str_includes_def edge_location_def
          edge_location_spec_def)
  next
    case False
    with Some have h: "header_or_NA res ''cf-ray'' = ray" by (simp add: header_or_NA_def)
    show ?thesis
    proof (cases "CHR ''-'' \<in> set ray")
      case True
      with Some h split_second [of "CHR ''-''" ray] show ?thesis
        by (simp add: cfEdge_of_def str_includes_def edge_location_def edge_location_spec_def)
    next
      case False
      with Some h show ?thesis
        by (simp add: cfEdge_of_def str_includes_def edge_location_def edge_location_spec_def)
    qed
  qed
qed

lemma retryableGet_extends:
  assumes "0 \<le> retries"
  shows "\<exists>new. snd (retryableGet e url cfg retries tr) = tr @ new \<and>
           set new \<subseteq> {EGet url cfg, ESleep Backoff 2000}"
  using retryableGet_shape [OF assms, of e url cfg tr]
    set_failed_attempts [of url cfg]
  by (elim disjE exE conjE) (rule exI, rule conjI, assumption, auto)+

lemma purge_calls_append [simp]: "purge_calls (xs @ ys) = purge_calls xs @ purge_calls ys"
  by (simp add: purge_calls_def)

lemma cdn_requests_append [simp]: "cdn_requests (xs @ ys) = cdn_requests xs @ cdn_requests ys"
  by (simp add: cdn_requests_def)

lemma no_purge_in_requests:
  "set new \<subseteq> {EGet url cfg, ESleep Backoff 2000} \<Longrightarrow>
   purge_calls new = [] \<and> cdn_requests new = []"
  by (induction new) (auto simp: purge_calls_def cdn_requests_def)

lemma purgeCloudflareCache_events:
  "\<exists>new. purgeCloudflareCache e url tr = tr @ new \<and>
      purge_calls new = [url] \<and>
      cdn_requests new = (if purge_configured e then [url] else [])"
  by (auto simp: purgeCloudflareCache_def purge_configured_def is_set_def Let_def
      purge_calls_def cdn_requests_def split: option.splits sum.splits)

lemma warm_url_success:
  assumes "buildAxiosCfg e country (Some 15000) = Inr cfg"
    and "retryableGet e url cfg 3 tr = (Inr res, tr1)"
  shows "warm_url e country url (lg, tr) =
     (logger_log
        \<lparr>l_country = cfEdge_of (header_or_NA res ''cf-ray''), l_url = url,
         l_status = JNum (res_status res),
         l_cfCache = JStr (header_or_NA res ''cf-cache-status''),
         l_lsCache = JStr (header_or_NA res ''x-litespeed-cache''),
         l_cfRay = JStr (header_or_NA res ''cf-ray''),
         l_responseMs = JNum (Date_now e tr1 - Date_now e tr), l_error = JNum 0,
         l_message = JStr []\<rparr> lg,
      if toLowerCase (header_or_NA res ''x-litespeed-cache'') \<noteq> ''hit''
      then purgeCloudflareCache e url (tr1 @ [EConsole (DWarmed country url)])
      else tr1 @ [EConsole (DWarmed country url)])"
  using assms by (simp add: warm_url_def warm_url_try_def Let_def)

lemma warm_url_failure:
  assumes "buildAxiosCfg e country (Some 15000) = Inl err \<and> tr1 = tr \<or>
           buildAxiosCfg e country (Some 15000) = Inr cfg \<and>
           retryableGet e url cfg 3 tr = (Inl err, tr1)"
  shows "warm_url e country url (lg, tr) =
     (logger_log
        (no_fields\<lparr>l_country := JStr country, l_url := url,
           l_responseMs := JNum (Date_now e tr1 - Date_now e tr), l_error := JNum 1,
           l_message := js_or (opt_prop err ''message'') (JStr ''request failed'')\<rparr>) lg,
      tr1 @ [EConsole (DWarmFailed country url)])"
  using assms by (auto simp: warm_url_def warm_url_try_def Let_def)

lemma header_hit:
  "toLowerCase (header_or_NA res k) = ''hit'' \<longleftrightarrow> equals_hit_ignoring_case (res_headers res k)"
proof (cases "res_headers res k")
  case None
  have "toLowerCase ''N/A'' \<noteq> ''hit''" by (simp add: toLowerCase_hit)
  with None show ?thesis by (simp add: header_or_NA_def equals_hit_ignoring_case_def)
next
  case (Some v)
  have "toLowerCase ''N/A'' \<noteq> ''hit''" by (simp add: toLowerCase_hit)
  with Some show ?thesis
    by (cases "v = []") (simp_all add: header_or_NA_def equals_hit_ignoring_case_def toLowerCase_hit)
qed

text \<open>
  C3. When the fetch of a URL succeeds, the events its handler adds hold no call of the
  purge client if the \<^verbatim>\<open>x-litespeed-cache\<close> header is one of the eight spellings of
  "hit", and exactly one call, for that URL, for any other value and for an absent
  header. The call becomes one request to the CDN, for that URL, when zone and token are
  both configured, and none when they are not.
\<close>

theorem warm_url_purge_calls:
  assumes "buildAxiosCfg e country (Some 15000) = Inr cfg"
    and "retryableGet e url cfg 3 tr = (Inr res, tr1)"
  shows "\<exists>new. snd (warm_url e country url (lg, tr)) = tr @ new \<and>
     purge_calls new =
       (if equals_hit_ignoring_case (res_headers res ''x-litespeed-cache'') then [] else [url]) \<and>
     cdn_requests new =
       (if equals_hit_ignoring_case (res_headers res ''x-litespeed-cache'') \<or>
           \<not> purge_configured e then [] else [url])"
proof -
  from retryableGet_extends [of 3 e url cfg tr] assms(2)
  obtain got where got: "tr1 = tr @ got" "set got \<subseteq> {EGet url cfg, ESleep Backoff 2000}"
    by auto
  from no_purge_in_requests [OF got(2)]
  have quiet: "purge_calls got = []" "cdn_requests got = []" by simp_all
  let ?tr2 = "tr1 @ [EConsole (DWarmed country url)]"
  show ?thesis
  proof (cases "equals_hit_ignoring_case (res_headers res ''x-litespeed-cache'')")
    case True
    then have "snd (warm_url e country url (lg, tr)) = tr @ (got @ [EConsole (DWarmed country url)])"
      using warm_url_success [OF assms, of lg] got(1) by (simp add: header_hit)
    moreover have "purge_calls (got @ [EConsole (DWarmed country url)]) = []"
      "cdn_requests (got @ [EConsole (DWarmed country url)]) = []"
      using quiet by (simp_all add: purge_calls_def cdn_requests_def)
    ultimately show ?thesis using True by auto
  next
    case False
    from purgeCloudflareCache_events [of e url ?tr2]
    obtain new where new: "purgeCloudflareCache e url ?tr2 = ?tr2 @ new"
      "purge_calls new = [url]" "cdn_requests new = (if purge_configured e then [url] else [])"
      by blast
    from False have "snd (warm_url e country url (lg, tr)) =
        tr @ (got @ [EConsole (DWarmed country url)] @ new)"
      using warm_url_success [OF assms, of lg] got(1) new(1) by (simp add: header_hit)
    moreover have "purge_calls (got @ [EConsole (DWarmed country url)] @ new) = [url]"
      "cdn_requests (got @ [EConsole (DWarmed country url)] @ new) =
         (if purge_configured e then [url] else [])"
      using quiet new(2,3) by (simp_all add: purge_calls_def cdn_requests_def)
    ultimately show ?thesis using False by auto
  qed
qed

lemma example_cfg_built:
  "buildAxiosCfg (example_env\<lparr>net := n\<rparr>) ''id'' (Some 15000) = Inr example_cfg"
  by (simp add: buildAxiosCfg_def example_env_def example_cfg_def PROXIES_def is_set_def)

lemma flaky_env_fetch:
  "retryableGet flaky_env example_url example_cfg 3 [] =
     (Inr ok_response,
      [EGet example_url example_cfg, ESleep Backoff 2000, EGet example_url example_cfg])"
proof -
  have tr: "transient reset_error" by code_simp
  have "retry_loop flaky_env example_url example_cfg 3 0 JNull [] =
     (case attempt_outcome flaky_env example_url example_cfg [] 1 of
        Inl err \<Rightarrow> Inl err | Inr res \<Rightarrow> Inr res,
      [] @ failed_attempts example_url example_cfg 1 @ [EGet example_url example_cfg])"
    using tr
    by (intro retry_loop_decided)
      (simp_all add: attempt_outcome_def failed_attempts_def flaky_env_def transient_failure_def)
  then show ?thesis
    by (simp add: retryableGet_def attempt_outcome_def failed_attempts_def flaky_env_def)
qed

lemma first_attempt_succeeds:
  assumes "net e (tr @ [EGet url cfg]) = Inr res"
  shows "retryableGet e url cfg 3 tr = (Inr res, tr @ [EGet url cfg])"
  using assms by (simp add: retryableGet_def retry_loop.simps [of e url cfg 3 0])

lemma all_attempts_reset:
  "retryableGet example_env example_url example_cfg 3 [] =
     (Inl reset_error, failed_attempts example_url example_cfg 3)"
proof -
  have tr: "transient reset_error" by code_simp
  have "retry_loop example_env example_url example_cfg 3 0 JNull [] =
     (Inl (if (3::nat) = 0 then JNull
           else (case attempt_outcome example_env example_url example_cfg [] (3 - 1) of
                   Inl err \<Rightarrow> err | Inr res \<Rightarrow> JNull)),
      [] @ failed_attempts example_url example_cfg 3)"
    using tr
    by (intro retry_loop_exhausted)
      (simp_all add: attempt_outcome_def example_env_def transient_failure_def)
  then show ?thesis
    by (simp add: retryableGet_def attempt_outcome_def example_env_def)
qed

theorem warm_url_purge_calls_witness:
  "buildAxiosCfg flaky_env ''id'' (Some 15000) = Inr example_cfg \<and>
   retryableGet flaky_env example_url example_cfg 3 [] =
     (Inr ok_response,
      [EGet example_url example_cfg, ESleep Backoff 2000, EGet example_url example_cfg]) \<and>
   res_headers ok_response ''x-litespeed-cache'' = Some ''miss'' \<and>
   purge_calls (snd (warm_url flaky_env ''id'' example_url (example_logger, []))) = [example_url] \<and>
   cdn_requests (snd (warm_url flaky_env ''id'' example_url (example_logger, []))) = [example_url] \<and>
   buildAxiosCfg hit_env ''id'' (Some 15000) = Inr example_cfg \<and>
   retryableGet hit_env example_url example_cfg 3 [] =
     (Inr hit_response, [EGet example_url example_cfg]) \<and>
   res_headers hit_response ''x-litespeed-cache'' = Some ''HiT'' \<and>
   purge_calls (snd (warm_url hit_env ''id'' example_url (example_logger, []))) = []"
proof -
  have cfg1: "buildAxiosCfg flaky_env ''id'' (Some 15000) = Inr example_cfg"
    unfolding flaky_env_def by (rule example_cfg_built)
  have cfg2: "buildAxiosCfg hit_env ''id'' (Some 15000) = Inr example_cfg"
    unfolding hit_env_def by (rule example_cfg_built)
  have get2: "retryableGet hit_env example_url example_cfg 3 [] =
     (Inr hit_response, [] @ [EGet example_url example_cfg])"
    by (rule first_attempt_succeeds) (simp add: hit_env_def)
  have miss: "res_headers ok_response ''x-litespeed-cache'' = Some ''miss''"
    by (simp add: ok_response_def)
  have hit: "res_headers hit_response ''x-litespeed-cache'' = Some ''HiT''"
    by (simp add: hit_response_def)
  have conf: "purge_configured flaky_env"
    by (simp add: purge_configured_def flaky_env_def example_env_def is_set_def)
  from warm_url_purge_calls [OF cfg1 flaky_env_fetch, of example_logger] miss conf
  have a: "purge_calls (snd (warm_url flaky_env ''id'' example_url (example_logger, []))) = [example_url]"
    and b: "cdn_requests (snd (warm_url flaky_env ''id'' example_url (example_logger, []))) = [example_url]"
    by (auto simp: equals_hit_ignoring_case_def)
  from warm_url_purge_calls [OF cfg2 get2, of example_logger] hit
  have c: "purge_calls (snd (warm_url hit_env ''id'' example_url (example_logger, []))) = []"
    by (auto simp: equals_hit_ignoring_case_def)
  from cfg1 cfg2 flaky_env_fetch get2 miss hit a b c show ?thesis by simp
qed

text \<open>
  C4, as amended. On success the handler appends one row whose identity cell (index 3)
  is the edge location: the text between the first hyphen of the \<^verbatim>\<open>cf-ray\<close> header and
  its next hyphen (or its end), and "N/A" for an absent or empty header and for one
  without a hyphen. That is the token the claim describes, cut at its own first hyphen;
  both agree on a header with one hyphen. On failure, of the configuration or of the
  request, the one row appended has the configured country in that cell.
\<close>

theorem warm_url_identity_cell:
  "(buildAxiosCfg e country (Some 15000) = Inr cfg \<and>
    retryableGet e url cfg 3 tr = (Inr res, tr1) \<longrightarrow>
      (\<exists>row. rows (fst (warm_url e country url (lg, tr))) = rows lg @ [row] \<and>
         length row = 12 \<and> row ! 10 = JNum 0 \<and>
         row ! 3 = JStr (edge_location (res_headers res ''cf-ray'')))) \<and>
   (buildAxiosCfg e country (Some 15000) = Inl err \<or>
    buildAxiosCfg e country (Some 15000) = Inr cfg \<and>
    retryableGet e url cfg 3 tr = (Inl err, tr1) \<longrightarrow>
      (\<exists>row. rows (fst (warm_url e country url (lg, tr))) = rows lg @ [row] \<and>
         length row = 12 \<and> row ! 10 = JNum 1 \<and>
         row ! 3 = JStr country)) \<and>
   edge_location h = takeWhile (\<lambda>x. x \<noteq> CHR ''-'') (edge_location_spec h) \<and>
   (h = None \<or> h = Some [] \<or> (\<exists>ray. h = Some ray \<and> CHR ''-'' \<notin> set ray) \<longrightarrow>
      edge_location h = ''N/A'') \<and>
   (CHR ''-'' \<notin> set a \<and> CHR ''-'' \<notin> set b \<longrightarrow>
      edge_location (Some (a @ ''-'' @ b)) = b \<and>
      edge_location (Some (a @ ''-'' @ b @ ''-'' @ c)) = b)"
proof -
  have ok: "\<exists>row. rows (fst (warm_url e country url (lg, tr))) = rows lg @ [row] \<and>
         length row = 12 \<and> row ! 10 = JNum 0 \<and>
         row ! 3 = JStr (edge_location (res_headers res ''cf-ray''))"
    if "buildAxiosCfg e country (Some 15000) = Inr cfg"
      "retryableGet e url cfg 3 tr = (Inr res, tr1)"
    using warm_url_success [OF that, of lg]
    by (simp add: logger_log_def dflt_def cfEdge_of_header)
  have bad: "\<exists>row. rows (fst (warm_url e country url (lg, tr))) = rows lg @ [row] \<and>
         length row = 12 \<and> row ! 10 = JNum 1 \<and> row ! 3 = JStr country"
    if "buildAxiosCfg e country (Some 15000) = Inl err \<or>
        buildAxiosCfg e country (Some 15000) = Inr cfg \<and>
        retryableGet e url cfg 3 tr = (Inl err, tr1)"
  proof -
    from that obtain t where "buildAxiosCfg e country (Some 15000) = Inl err \<and> t = tr \<or>
           buildAxiosCfg e country (Some 15000) = Inr cfg \<and>
           retryableGet e url cfg 3 tr = (Inl err, t)"
      by blast
    from warm_url_failure [OF this, of lg] show ?thesis
      by (simp add: logger_log_def dflt_def)
  qed
  have sentinel: "edge_location h = ''N/A''"
    if "h = None \<or> h = Some [] \<or> (\<exists>ray. h = Some ray \<and> CHR ''-'' \<notin> set ray)"
    using that by (auto simp: edge_location_def edge_location_spec_def)
  have seg: "edge_location (Some (a @ ''-'' @ b)) = b \<and>
      edge_location (Some (a @ ''-'' @ b @ ''-'' @ c)) = b"
    if "CHR ''-'' \<notin> set a \<and> CHR ''-'' \<notin> set b"
    using that
    by (simp add: edge_location_def edge_location_spec_def dropWhile_append3 takeWhile_tail
        dropWhile_append takeWhile_append)
  show ?thesis
    using ok bad sentinel seg by (simp add: edge_location_def)
qed

theorem warm_url_identity_cell_witness:
  "buildAxiosCfg flaky_env ''id'' (Some 15000) = Inr example_cfg \<and>
   retryableGet flaky_env example_url example_cfg 3 [] =
     (Inr ok_response,
      [EGet example_url example_cfg, ESleep Backoff 2000, EGet example_url example_cfg]) \<and>
   res_headers ok_response ''cf-ray'' = Some ''abcd-SIN'' \<and>
   last (rows (fst (warm_url flaky_env ''id'' example_url (example_logger, [])))) ! 3 = JStr ''SIN'' \<and>
   buildAxiosCfg example_env ''id'' (Some 15000) = Inr example_cfg \<and>
   retryableGet example_env example_url example_cfg 3 [] =
     (Inl reset_error, failed_attempts example_url example_cfg 3) \<and>
   last (rows (fst (warm_url example_env ''id'' example_url (example_logger, [])))) ! 3 = JStr ''id'' \<and>
   edge_location None = ''N/A'' \<and> edge_location (Some ''abcd'') = ''N/A'' \<and>
   edge_location (Some (''ab'' @ ''-'' @ ''SIN'' @ ''-'' @ ''x'')) = ''SIN''"
proof -
  have cfg1: "buildAxiosCfg flaky_env ''id'' (Some 15000) = Inr example_cfg"
    unfolding flaky_env_def by (rule example_cfg_built)
  have cfg2: "buildAxiosCfg example_env ''id'' (Some 15000) = Inr example_cfg"
    using example_cfg_built [of "net example_env"] by simp
  have ray: "res_headers ok_response ''cf-ray'' = Some ''abcd-SIN''"
    by (simp add: ok_response_def)
  have sin: "edge_location (Some ''abcd-SIN'') = ''SIN''"
    by (simp add: edge_location_def edge_location_spec_def)
  have nohyphen: "CHR ''-'' \<notin> set ''abcd''" by simp
  note T = warm_url_identity_cell
  from T [where e = flaky_env and country = "''id''" and cfg = example_cfg and url = example_url
      and tr = "[]" and res = ok_response and lg = example_logger
      and ?tr1.0 = "[EGet example_url example_cfg, ESleep Backoff 2000, EGet example_url example_cfg]",
      THEN conjunct1]
    cfg1 flaky_env_fetch ray sin
  have a: "last (rows (fst (warm_url flaky_env ''id'' example_url (example_logger, [])))) ! 3 = JStr ''SIN''"
    by auto
  from T [where e = example_env and country = "''id''" and cfg = example_cfg and url = example_url
      and tr = "[]" and err = reset_error and lg = example_logger
      and ?tr1.0 = "failed_attempts example_url example_cfg 3",
      THEN conjunct2, THEN conjunct1]
    cfg2 all_attempts_reset
  have b: "last (rows (fst (warm_url example_env ''id'' example_url (example_logger, [])))) ! 3 = JStr ''id''"
    by auto
  from T [where h = None, THEN conjunct2, THEN conjunct2, THEN conjunct2, THEN conjunct1]
  have c: "edge_location None = ''N/A''"
    by simp
  from T [where h = "Some ''abcd''", THEN conjunct2, THEN conjunct2, THEN conjunct2,
      THEN conjunct1] nohyphen
  have d: "edge_location (Some ''abcd'') = ''N/A''"
    by simp
  have parts: "CHR ''-'' \<notin> set ''ab'' \<and> CHR ''-'' \<notin> set ''SIN''" by simp
  from T [where a = "''ab''" and b = "''SIN''" and c = "''x''", THEN conjunct2, THEN conjunct2,
      THEN conjunct2, THEN conjunct2] parts
  have f: "edge_location (Some (''ab'' @ ''-'' @ ''SIN'' @ ''-'' @ ''x'')) = ''SIN''"
    by blast
  from cfg1 flaky_env_fetch ray a cfg2 all_attempts_reset b c d f show ?thesis by simp
qed

text \<open>
  For the header \<^verbatim>\<open>ab-SIN-x\<close> the part after the first hyphen is \<^verbatim>\<open>SIN-x\<close>; the row
  carries \<^verbatim>\<open>SIN\<close>.
\<close>

theorem warm_url_identity_cell_counterexample:
  "last (rows (fst (warm_url hyphen_env ''id'' example_url (example_logger, [])))) ! 3 \<noteq>
   JStr (edge_location_spec (res_headers hyphen_response ''cf-ray''))"
  by code_simp

section \<open>Batches\<close>



















section \<open>Sitemaps and the whole run\<close>



lemma length_fetch_children: "length (fst (fetch_children e country ss tr)) = length ss"
  by (induction ss arbitrary: tr) (simp_all add: Let_def)





lemma flush_returns: "fst (flush e lg tr) = Inr ()"
  by (auto simp: flush_def flush_try_def Let_def split: option.splits sum.splits)

lemma warmUrls_returns: "0 < batchSize \<Longrightarrow> fst (warmUrls e urls country lg batchSize delay tr) = Inr ()"
  by (simp add: warmUrls_def Let_def)

lemma warmUrls_nothing:
  "0 < batchSize \<Longrightarrow> warmUrls e [] country lg batchSize delay tr = (Inr (), lg, tr)"
  by (simp add: warmUrls_def make_batches_def ceil_div_def)

lemma run_domains_returns: "fst (run_domains e DOMAINS_MAP lg tr) = Inr ()"
proof -
  let ?entry = "(''id'', ''https://divemasterlembongan.com'')"
  obtain r lg1 tr1 where p: "domain_pipeline e ?entry lg tr = (r, lg1, tr1)"
    by (cases "domain_pipeline e ?entry lg tr")
  have "fst (domain_pipeline e ?entry lg tr) = Inr ()"
    by (simp add: domain_pipeline_def Let_def warmUrls_returns)
  with p have "r = Inr ()" by simp
  with p show ?thesis
    by (simp add: DOMAINS_MAP_def)
qed

lemma main_returns: "fst (main e) = Inr ()"
proof -
  obtain r lg1 tr1 where run: "run_domains e DOMAINS_MAP (AppsScriptLogger e [EConsole DStarted])
      [EConsole DStarted] = (r, lg1, tr1)"
    by (cases "run_domains e DOMAINS_MAP (AppsScriptLogger e [EConsole DStarted]) [EConsole DStarted]")
  with run_domains_returns [of e "AppsScriptLogger e [EConsole DStarted]" "[EConsole DStarted]"]
  have r: "r = Inr ()" by simp
  obtain f tr2 where fl: "flush e (setFinished (Date_now e tr1) lg1) tr1 = (f, tr2)"
    by (cases "flush e (setFinished (Date_now e tr1) lg1) tr1")
  with flush_returns [of e "setFinished (Date_now e tr1) lg1" tr1]
  have f: "f = Inr ()" by simp
  show ?thesis
    by (simp add: main_def Let_def run r fl f)
qed

lemma show_nat_0: "show_nat 0 = ''0''"
  by code_simp

lemma main_without_urls:
  assumes "fst (resolve_urls e ''id'' ''https://divemasterlembongan.com'' [EConsole DStarted]) = []"
  shows "\<exists>row. rows (fst (snd (main e))) = [row] \<and> length row = 12 \<and>
      row ! 3 = JStr ''id'' \<and> row ! 11 = JStr ''Found 0 URLs for id'' \<and>
      EConsole (DFound ''id'' 0) \<in> set (snd (snd (main e)))"
proof -
  let ?tr0 = "[EConsole DStarted]"
  let ?lg0 = "AppsScriptLogger e ?tr0"
  let ?r = "resolve_urls e ''id'' ''https://divemasterlembongan.com'' ?tr0"
  let ?tr1 = "snd ?r @ [EConsole (DFound ''id'' 0)]"
  let ?lg1 = "logger_log (no_fields\<lparr>l_country := JStr ''id'',
      l_message := JStr (''Found '' @ show_nat 0 @ '' URLs for '' @ ''id'')\<rparr>) ?lg0"
  have pipe: "run_domains e DOMAINS_MAP ?lg0 ?tr0 = (Inr (), ?lg1, ?tr1)"
    using assms
    by (simp add: DOMAINS_MAP_def domain_pipeline_def Let_def warmUrls_nothing)
  let ?lg2 = "setFinished (Date_now e ?tr1) ?lg1"
  obtain tr2 where fl: "flush e ?lg2 ?tr1 = (Inr (), tr2)"
    using flush_returns [of e ?lg2 ?tr1] by (cases "flush e ?lg2 ?tr1") simp
  have ext: "\<exists>new. tr2 = ?tr1 @ new"
    using fl by (auto simp: flush_def flush_try_def Let_def split: option.splits sum.splits if_splits)
  have m: "main e = (Inr (), ?lg2, tr2 @ [EConsole DFinished])"
    unfolding main_def Let_def by (simp only: pipe fl prod.case sum.case)
  have rows: "rows ?lg2 = [js_set (hd (rows ?lg1)) 2 (JStr (toISOString (Date_now e ?tr1)))]"
    by (simp add: rows_setFinished logger_log_def AppsScriptLogger_def)
  have cells: "length (hd (rows ?lg1)) = 12" "hd (rows ?lg1) ! 3 = JStr ''id''"
    "hd (rows ?lg1) ! 11 = JStr ''Found 0 URLs for id''"
    by (simp_all add: logger_log_def AppsScriptLogger_def no_fields_def dflt_def show_nat_0)
  from ext have ev: "EConsole (DFound ''id'' 0) \<in> set (tr2 @ [EConsole DFinished])" by auto
  show ?thesis
    unfolding m using rows cells ev
    by (simp add: js_set_other length_js_set_in_range)
qed

lemma fetchIndexSitemaps_catch:
  "fst (fetchIndexSitemaps_try e domain country tr) = Inl err \<Longrightarrow>
   fst (fetchIndexSitemaps e domain country tr) = []"
  by (cases "fetchIndexSitemaps_try e domain country tr") (simp add: fetchIndexSitemaps_def)

lemma fetchUrlsFromSitemap_catch:
  "fst (fetchUrlsFromSitemap_try e s country tr) = Inl err \<Longrightarrow>
   fst (fetchUrlsFromSitemap e s country tr) = []"
  by (cases "fetchUrlsFromSitemap_try e s country tr") (simp add: fetchUrlsFromSitemap_def)

lemma index_failures:
  assumes "fst (fetchWithProxy e (JStr (domain @ ''/sitemap_index.xml'')) country 15000 tr) = Inl err \<or>
     (\<exists>xml. fst (fetchWithProxy e (JStr (domain @ ''/sitemap_index.xml'')) country 15000 tr) = Inr xml \<and>
        (parseStringPromise e xml = Inl err \<or>
         (\<exists>result. parseStringPromise e xml = Inr result \<and>
            \<not> truthy (opt_prop (opt_prop result ''sitemapindex'') ''sitemap''))))"
  shows "fst (fetchIndexSitemaps e domain country tr) = []"
  using assms
  by (cases "fetchWithProxy e (JStr (domain @ ''/sitemap_index.xml'')) country 15000 tr")
    (auto simp: fetchIndexSitemaps_def fetchIndexSitemaps_try_def Let_def split: sum.splits)

lemma no_sitemaps_no_urls:
  "fst (fetchIndexSitemaps e domain country tr) = [] \<Longrightarrow>
   fst (resolve_urls e country domain tr) = []"
  by (simp add: resolve_urls_def Let_def)

text \<open>
  C7. The two sitemap functions return a list in every case: their bodies are wholly
  inside \<^verbatim>\<open>try\<close>, and whatever the body throws ends as the empty list. For the index that
  covers a failed request, a parser failure, and a parse result without the expected
  structure. A child sitemap that fails adds no URL, and the children after it are still
  fetched: there is one result per child. With no sitemaps there are no URLs, and with
  no URLs the run logs the one summary row "Found 0 URLs for id". The run never throws.
\<close>

theorem sitemap_failures_never_raise:
  "(fst (fetchIndexSitemaps_try e domain country tr) = Inl err \<longrightarrow>
      fst (fetchIndexSitemaps e domain country tr) = []) \<and>
   (fst (fetchWithProxy e (JStr (domain @ ''/sitemap_index.xml'')) country 15000 tr) = Inl err \<longrightarrow>
      fst (fetchIndexSitemaps e domain country tr) = []) \<and>
   (fst (fetchWithProxy e (JStr (domain @ ''/sitemap_index.xml'')) country 15000 tr) = Inr xml \<and>
    parseStringPromise e xml = Inl err \<longrightarrow>
      fst (fetchIndexSitemaps e domain country tr) = []) \<and>
   (fst (fetchWithProxy e (JStr (domain @ ''/sitemap_index.xml'')) country 15000 tr) = Inr xml \<and>
    parseStringPromise e xml = Inr result \<and>
    \<not> truthy (opt_prop (opt_prop result ''sitemapindex'') ''sitemap'') \<longrightarrow>
      fst (fetchIndexSitemaps e domain country tr) = []) \<and>
   (fst (fetchUrlsFromSitemap_try e s country tr) = Inl err \<longrightarrow>
      fst (fetchUrlsFromSitemap e s country tr) = [] \<and>
      concat (fst (fetch_children e country (s # ss) tr)) =
        concat (fst (fetch_children e country ss (snd (fetchUrlsFromSitemap e s country tr))))) \<and>
   length (fst (fetch_children e country ss tr)) = length ss \<and>
   (fst (fetchIndexSitemaps e ''https://divemasterlembongan.com'' ''id'' [EConsole DStarted]) = [] \<longrightarrow>
      fst (resolve_urls e ''id'' ''https://divemasterlembongan.com'' [EConsole DStarted]) = []) \<and>
   (fst (resolve_urls e ''id'' ''https://divemasterlembongan.com'' [EConsole DStarted]) = [] \<longrightarrow>
      (\<exists>row. rows (fst (snd (main e))) = [row] \<and> length row = 12 \<and>
         row ! 3 = JStr ''id'' \<and> row ! 11 = JStr ''Found 0 URLs for id'' \<and>
         EConsole (DFound ''id'' 0) \<in> set (snd (snd (main e))))) \<and>
   fst (main e) = Inr ()"
proof -
  have child: "fst (fetchUrlsFromSitemap e s country tr) = [] \<and>
      concat (fst (fetch_children e country (s # ss) tr)) =
        concat (fst (fetch_children e country ss (snd (fetchUrlsFromSitemap e s country tr))))"
    if "fst (fetchUrlsFromSitemap_try e s country tr) = Inl err"
    using fetchUrlsFromSitemap_catch [OF that] by (simp add: Let_def)
  show ?thesis
    using fetchIndexSitemaps_catch [of e domain country tr err]
      index_failures [of e domain country tr err]
      child length_fetch_children [of e country ss tr]
      no_sitemaps_no_urls [of e "''https://divemasterlembongan.com''" "''id''" "[EConsole DStarted]"]
      main_without_urls [of e] main_returns [of e]
    by blast
qed

theorem sitemap_failures_never_raise_witness:
  "fst (fetchIndexSitemaps_try example_env ''https://divemasterlembongan.com'' ''id'' []) =
     Inl reset_error \<and>
   fst (fetchIndexSitemaps example_env ''https://divemasterlembongan.com'' ''id'' []) = [] \<and>
   fst (fetchWithProxy example_env (JStr (''https://divemasterlembongan.com'' @ ''/sitemap_index.xml''))
         ''id'' 15000 [EConsole DStarted]) = Inl reset_error \<and>
   fst (fetchIndexSitemaps example_env ''https://divemasterlembongan.com'' ''id'' [EConsole DStarted]) = [] \<and>
   fst (resolve_urls example_env ''id'' ''https://divemasterlembongan.com'' [EConsole DStarted]) = [] \<and>
   length (rows (fst (snd (main example_env)))) = 1 \<and>
   hd (rows (fst (snd (main example_env)))) ! 11 = JStr ''Found 0 URLs for id'' \<and>
   fst (main example_env) = Inr () \<and>
   parseStringPromise badxml_env (JStr []) = Inl (JStr ''Non-whitespace before first tag.'') \<and>
   fst (fetchIndexSitemaps badxml_env ''https://divemasterlembongan.com'' ''id'' [EConsole DStarted]) = [] \<and>
   parseStringPromise hit_env (JStr []) = Inr (JStr []) \<and>
   fst (fetchIndexSitemaps hit_env ''https://divemasterlembongan.com'' ''id'' [EConsole DStarted]) = [] \<and>
   fst (fetchUrlsFromSitemap_try child_fail_env (JStr ''https://example.com/s1.xml'') ''id'' []) =
     Inl reset_error \<and>
   fst (fetchUrlsFromSitemap child_fail_env (JStr ''https://example.com/s1.xml'') ''id'' []) = [] \<and>
   length (fst (fetch_children child_fail_env ''id''
     [JStr ''https://example.com/s1.xml'', JStr ''https://example.com/s2.xml''] [])) = 2"
proof -
  let ?dom = "''https://divemasterlembongan.com''"
  let ?tr0 = "[EConsole DStarted]"
  let ?s1 = "JStr ''https://example.com/s1.xml''"
  let ?s2 = "JStr ''https://example.com/s2.xml''"
  note T = sitemap_failures_never_raise
  have f1: "fst (fetchWithProxy example_env (JStr (?dom @ ''/sitemap_index.xml'')) ''id'' 15000 ?tr0) =
      Inl reset_error"
    by code_simp
  from T [where e = example_env and domain = ?dom and country = "''id''" and tr = ?tr0
      and err = reset_error, THEN conjunct2, THEN conjunct1] f1
  have i1: "fst (fetchIndexSitemaps example_env ?dom ''id'' ?tr0) = []"
    by simp
  from T [where e = example_env] i1
  have r1: "fst (resolve_urls example_env ''id'' ?dom ?tr0) = []"
    by simp
  from T [where e = example_env] r1
  obtain row where row: "rows (fst (snd (main example_env))) = [row]"
    "row ! 11 = JStr ''Found 0 URLs for id''"
    by blast
  from T [where e = example_env] have m1: "fst (main example_env) = Inr ()"
    by simp
  have f2: "fst (fetchWithProxy badxml_env (JStr (?dom @ ''/sitemap_index.xml'')) ''id'' 15000 ?tr0) =
      Inr (JStr [])"
    by code_simp
  have p2: "parseStringPromise badxml_env (JStr []) = Inl (JStr ''Non-whitespace before first tag.'')"
    by code_simp
  from T [where e = badxml_env and domain = ?dom and country = "''id''" and tr = ?tr0
      and err = "JStr ''Non-whitespace before first tag.''" and xml = "JStr []",
      THEN conjunct2, THEN conjunct2, THEN conjunct1] f2 p2
  have i2: "fst (fetchIndexSitemaps badxml_env ?dom ''id'' ?tr0) = []"
    by simp
  have f3: "fst (fetchWithProxy hit_env (JStr (?dom @ ''/sitemap_index.xml'')) ''id'' 15000 ?tr0) =
      Inr (JStr [])"
    by code_simp
  have p3: "parseStringPromise hit_env (JStr []) = Inr (JStr [])"
    by code_simp
  have s3: "\<not> truthy (opt_prop (opt_prop (JStr []) ''sitemapindex'') ''sitemap'')"
    by simp
  from T [where e = hit_env and domain = ?dom and country = "''id''" and tr = ?tr0
      and xml = "JStr []" and result = "JStr []",
      THEN conjunct2, THEN conjunct2, THEN conjunct2, THEN conjunct1] f3 p3 s3
  have i3: "fst (fetchIndexSitemaps hit_env ?dom ''id'' ?tr0) = []"
    by simp
  have f4: "fst (fetchUrlsFromSitemap_try child_fail_env ?s1 ''id'' []) = Inl reset_error"
    by code_simp
  from T [where e = child_fail_env and s = ?s1 and country = "''id''" and tr = "[]"
      and err = reset_error,
      THEN conjunct2, THEN conjunct2, THEN conjunct2, THEN conjunct2, THEN conjunct1] f4
  have c4: "fst (fetchUrlsFromSitemap child_fail_env ?s1 ''id'' []) = []"
    by simp
  from T [where e = child_fail_env and country = "''id''" and tr = "[]" and ss = "[?s1, ?s2]"]
  have l4: "length (fst (fetch_children child_fail_env ''id'' [?s1, ?s2] [])) = 2"
    by simp
  have f0: "fst (fetchIndexSitemaps_try example_env ?dom ''id'' []) = Inl reset_error"
    by code_simp
  from T [where e = example_env and domain = ?dom and country = "''id''" and tr = "[]"
      and err = reset_error, THEN conjunct1] f0
  have i0: "fst (fetchIndexSitemaps example_env ?dom ''id'' []) = []"
    by simp
  from f0 i0 f1 i1 r1 row m1 p2 i2 p3 i3 f4 c4 l4 show ?thesis by simp
qed

end
